theory Spec2Isabelle
  imports Complex_Main "HOL-Library.AList" "HOL-Library.Multiset"
begin

section \<open>Python values, errors and objects\<close>

text \<open>
  The framework is object-oriented Python: commands, topics and subscribers are heap objects
  that refer to each other, so the model keeps explicit stores from addresses to objects.
  An exception is a value of type \<open>error\<close>; a call that does not return (the
  \<^verbatim>\<open>while\<close> loop of \<^verbatim>\<open>Command.setNext\<close> on a cyclic chain, or nesting deeper than
  the given budget) is the value \<open>None\<close>.
\<close>

type_synonym addr = nat

datatype error =
    TypeError string
  | AttributeError string
  | KeyError string
  | IndexError string
  | RuntimeError string
  | TopicCircularDependency string
  | OSError string
  | Exception string

text \<open>
  Values that user code can hand to the framework. \<open>PDict\<close> is an object whose type is exactly
  \<^verbatim>\<open>dict\<close>. \<open>PDictSubclass c kv\<close> is an instance of the class \<open>c\<close>, a subclass of \<^verbatim>\<open>dict\<close>
  (\<^verbatim>\<open>OrderedDict\<close>, \<^verbatim>\<open>defaultdict\<close>), and \<open>PMappingProxy kv\<close> is a \<^verbatim>\<open>types.MappingProxyType\<close>:
  both are mappings, neither has the type \<^verbatim>\<open>dict\<close>. \<open>PCommand a\<close> is a reference to an
  instance of (a subclass of) \<^verbatim>\<open>Command\<close>, \<open>PSubscriber a\<close> one to a \<^verbatim>\<open>Subscriber\<close> or
  \<^verbatim>\<open>Topic\<close>.
\<close>

datatype pyval =
    PNone
  | PBool bool
  | PInt int
  | PFloat real
  | PStr string
  | PList "pyval list"
  | PDict "(string \<times> pyval) list"
  | PDictSubclass string "(string \<times> pyval) list"
  | PMappingProxy "(string \<times> pyval) list"
  | PCommand addr
  | PSubscriber addr

datatype py_type =
    NoneType | TBool | TInt | TFloat | TStr | TList | TDict | TDictSubclass string
  | TMappingProxy | TCommand | TSubscriber

text \<open>Python's \<^verbatim>\<open>type(x)\<close>.\<close>

fun type_of :: "pyval \<Rightarrow> py_type" where
  "type_of PNone = NoneType"
| "type_of (PBool _) = TBool"
| "type_of (PInt _) = TInt"
| "type_of (PFloat _) = TFloat"
| "type_of (PStr _) = TStr"
| "type_of (PList _) = TList"
| "type_of (PDict _) = TDict"
| "type_of (PDictSubclass c _) = TDictSubclass c"
| "type_of (PMappingProxy _) = TMappingProxy"
| "type_of (PCommand _) = TCommand"
| "type_of (PSubscriber _) = TSubscriber"

text \<open>Python's \<^verbatim>\<open>isinstance(x, collections.abc.Mapping)\<close>: the value is a mapping.\<close>

fun is_mapping :: "pyval \<Rightarrow> bool" where
  "is_mapping (PDict _) = True"
| "is_mapping (PDictSubclass _ _) = True"
| "is_mapping (PMappingProxy _) = True"
| "is_mapping _ = False"

text \<open>The value of the attribute \<^verbatim>\<open>next_command\<close>: \<^verbatim>\<open>None\<close> or a command.\<close>

datatype ref = PyNone | Ref addr

subsection \<open>Message\<close>

text \<open>
  \<^verbatim>\<open>
  class Message:
      def __init__(self, message: dict):
          self.message = message
          if type(message) != dict:
              raise TypeError(...)
          self.time_stamp = time.time()
  \<close>
  The clock reading \<^verbatim>\<open>time.time()\<close> is the argument \<open>now\<close>.
\<close>

record message =
  message :: pyval
  time_stamp :: real

definition Message :: "real \<Rightarrow> pyval \<Rightarrow> error + message" where
  "Message now m =
     (if type_of m \<noteq> TDict then Inl (TypeError ''Message must be a dictionary'')
      else Inr \<lparr>message = m, time_stamp = now\<rparr>)"

subsection \<open>Command objects\<close>

text \<open>
  The abstract methods \<^verbatim>\<open>first_run_behavior\<close>, \<^verbatim>\<open>periodic\<close> and \<^verbatim>\<open>is_complete\<close> of a
  user-written subclass act on the user's own state \<open>'u\<close>: the first two change it, the third
  reads it. A \<^verbatim>\<open>DynamicCommand\<close> subclass supplies the first two only; its \<^verbatim>\<open>conditions\<close> list
  holds callables (by address, since the dictionary \<^verbatim>\<open>command_condition_pairs\<close> is keyed by
  the callable object itself). \<^verbatim>\<open>ParallelCommand\<close> holds \<^verbatim>\<open>commands\<close>; \<^verbatim>\<open>DelayCommand\<close> holds
  \<^verbatim>\<open>start_time\<close> (\<open>None\<close> is Python's \<^verbatim>\<open>None\<close>), \<^verbatim>\<open>delay_time\<close> and \<^verbatim>\<open>timer_subsystem\<close>.
  Times are real numbers: the rounding of Python's floats is not modelled.
\<close>

datatype 'u kind =
    UserCommand "'u \<Rightarrow> 'u" "'u \<Rightarrow> 'u" "'u \<Rightarrow> bool"
  | DynamicCommand "'u \<Rightarrow> 'u" "'u \<Rightarrow> 'u" "addr list" "addr \<rightharpoonup> pyval"
  | ParallelCommand "addr list"
  | DelayCommand "real option" real addr

text \<open>
  The attributes every class shares. \<^verbatim>\<open>Command.__init__\<close> sets \<^verbatim>\<open>next_command = None\<close> and
  \<^verbatim>\<open>first_run_occurred = False\<close>. An attribute that was never assigned is \<open>None\<close> here and
  reading it raises \<^verbatim>\<open>AttributeError\<close>: \<^verbatim>\<open>ParallelCommand.__init__\<close> does not call
  \<^verbatim>\<open>super().__init__\<close>, so its objects have no \<^verbatim>\<open>next_command\<close>; and no constructor of the
  repository assigns the attribute \<^verbatim>\<open>first_run_occured\<close> that \<^verbatim>\<open>Scheduler.periodic\<close> reads
  (only a user's subclass could).
\<close>

record 'u command =
  kind :: "'u kind"
  next_command :: "ref option"
  first_run_occurred :: bool
  first_run_occured :: "bool option"

definition Command_init :: "'u kind \<Rightarrow> 'u command" where
  "Command_init k =
     \<lparr>kind = k, next_command = Some PyNone, first_run_occurred = False, first_run_occured = None\<rparr>"

definition DynamicCommand_init :: "('u \<Rightarrow> 'u) \<Rightarrow> ('u \<Rightarrow> 'u) \<Rightarrow> 'u command" where
  "DynamicCommand_init fr per = Command_init (DynamicCommand fr per [] Map.empty)"

definition ParallelCommand_init :: "addr list \<Rightarrow> 'u command" where
  "ParallelCommand_init cs =
     \<lparr>kind = ParallelCommand cs, next_command = None, first_run_occurred = False,
      first_run_occured = None\<rparr>"

definition DelayCommand_init :: "real \<Rightarrow> addr \<Rightarrow> 'u command" where
  "DelayCommand_init delay_time_s timer = Command_init (DelayCommand None delay_time_s timer)"

subsection \<open>Subscriber and Topic objects\<close>

text \<open>
  A \<^verbatim>\<open>Topic\<close> is a \<^verbatim>\<open>Subscriber\<close> with further attributes (\<open>topic = Some _\<close>). The
  user-written methods \<^verbatim>\<open>subscriber_periodic\<close>, \<^verbatim>\<open>subscriber_periodic_sim\<close> (an optional
  override), \<^verbatim>\<open>initialize_hardware\<close> and \<^verbatim>\<open>generate_messages_periodic\<close> read the object's
  stored messages and act on the user state. \<^verbatim>\<open>SystemTimeTopic\<close> is the one topic the
  repository implements: its attribute \<^verbatim>\<open>message\<close> is the dictionary with the keys
  \<^verbatim>\<open>"Unix"\<close> and \<^verbatim>\<open>"DeltaTimeSeconds"\<close>, kept here as a record.
\<close>

record time_message =
  Unix :: real
  DeltaTimeSeconds :: real

definition time_payload :: "time_message \<Rightarrow> pyval" where
  "time_payload m = PDict [(''Unix'', PFloat (Unix m)), (''DeltaTimeSeconds'', PFloat (DeltaTimeSeconds m))]"

datatype 'u generator =
    UserTopic "(string \<rightharpoonup> message) \<Rightarrow> real \<Rightarrow> 'u \<Rightarrow> pyval \<times> 'u"
  | SystemTimeTopic time_message real bool

record 'u topic_fields =
  subscribers :: "addr list"
  message_body :: pyval
  current_time :: real
  previous_time :: real
  delta_time_seconds :: real
  replace_message_with_log :: bool
  generator :: "'u generator"

record 'u subscriber =
  name :: string
  messages :: "string \<rightharpoonup> message"
  is_sim :: bool
  subscriber_periodic_user :: "(string \<rightharpoonup> message) \<Rightarrow> 'u \<Rightarrow> 'u"
  subscriber_periodic_sim_user :: "((string \<rightharpoonup> message) \<Rightarrow> 'u \<Rightarrow> 'u) option"
  initialize_hardware_user :: "'u \<Rightarrow> bool"
  topic :: "'u topic_fields option"

subsection \<open>The world\<close>

text \<open>
  Calls of user-written methods are recorded in \<open>trace\<close>, in order. \<^verbatim>\<open>time.time()\<close> reads the
  next value of \<open>clock\<close>. A log file is a list of lines; the text that \<^verbatim>\<open>json.dumps\<close> and
  \<^verbatim>\<open>str.format\<close> produce is kept structured: a tick's line holds the tick time and, for each
  topic name, the message dictionary, the publish time and the delta. The file name
  \<^verbatim>\<open>"log_" + str(int(time.time())) + ".csv"\<close> is \<open>LogCsv n\<close>.
\<close>

datatype event =
    FirstRunBehavior addr
  | PeriodicCall addr
  | IsCompleteCall addr
  | ConditionCall addr
  | GenerateMessages addr
  | SubscriberPeriodic addr
  | SubscriberPeriodicSim addr
  | InitializeHardware addr

datatype path = LogCsv int | UserPath string

datatype log_line =
    Header
  | Tick real "(string \<times> pyval \<times> real \<times> real) list"

record 'u world =
  cmds :: "addr \<Rightarrow> 'u command"
  subs :: "addr \<Rightarrow> 'u subscriber"
  callables :: "addr \<Rightarrow> 'u \<Rightarrow> bool"
  user :: 'u
  clock :: "nat \<Rightarrow> real"
  reads :: nat
  files :: "path \<rightharpoonup> log_line list"
  stdout :: "string list"
  trace :: "event list"

definition time_time :: "'u world \<Rightarrow> real \<times> 'u world" where
  "time_time w = (clock w (reads w), w\<lparr>reads := Suc (reads w)\<rparr>)"

definition log_event :: "event \<Rightarrow> 'u world \<Rightarrow> 'u world" where
  "log_event e w = w\<lparr>trace := trace w @ [e]\<rparr>"

definition update_cmd :: "addr \<Rightarrow> ('u command \<Rightarrow> 'u command) \<Rightarrow> 'u world \<Rightarrow> 'u world" where
  "update_cmd a f w = w\<lparr>cmds := (cmds w)(a := f (cmds w a))\<rparr>"

definition update_sub :: "addr \<Rightarrow> ('u subscriber \<Rightarrow> 'u subscriber) \<Rightarrow> 'u world \<Rightarrow> 'u world" where
  "update_sub a f w = w\<lparr>subs := (subs w)(a := f (subs w a))\<rparr>"

section \<open>Command\<close>

subsection \<open>\<^verbatim>\<open>Command.setNext\<close>\<close>

text \<open>
  \<^verbatim>\<open>
  def setNext(self, next_command: 'Command'):
      if not isinstance(next_command, Command):
          raise TypeError("next_command must be an instance of Command")
      if self.next_command is None:
          self.next_command = next_command
      else:
          last_command = self.next_command
          while last_command.next_command is not None:
              last_command = last_command.next_command
          last_command.next_command = next_command
      return self
  \<close>
  The \<^verbatim>\<open>while\<close> loop may run forever, so it is a partial function: \<open>None\<close> is "does not
  return". The method returns \<^verbatim>\<open>self\<close>; the model returns the new world.
\<close>

partial_function (option) last_command_loop ::
  "(addr \<Rightarrow> 'u command) \<Rightarrow> addr \<Rightarrow> (error + addr) option" where
  "last_command_loop h last_command =
     (case next_command (h last_command) of
        None \<Rightarrow> Some (Inl (AttributeError ''next_command''))
      | Some PyNone \<Rightarrow> Some (Inr last_command)
      | Some (Ref n) \<Rightarrow> last_command_loop h n)"

definition set_next_command :: "addr \<Rightarrow> 'u command \<Rightarrow> 'u command" where
  "set_next_command n c = c\<lparr>next_command := Some (Ref n)\<rparr>"

definition setNext :: "'u world \<Rightarrow> addr \<Rightarrow> pyval \<Rightarrow> (error + 'u world) option" where
  "setNext w self v =
     (case v of
        PCommand n \<Rightarrow>
          (case next_command (cmds w self) of
             None \<Rightarrow> Some (Inl (AttributeError ''next_command''))
           | Some PyNone \<Rightarrow> Some (Inr (update_cmd self (set_next_command n) w))
           | Some (Ref first) \<Rightarrow>
               (case last_command_loop (cmds w) first of
                  None \<Rightarrow> None
                | Some (Inl e) \<Rightarrow> Some (Inl e)
                | Some (Inr last_command) \<Rightarrow>
                    Some (Inr (update_cmd last_command (set_next_command n) w))))
      | _ \<Rightarrow> Some (Inl (TypeError ''next_command must be an instance of Command'')))"

text \<open>The tail of a successor chain: the command reached from \<open>a\<close> that has no successor.\<close>

inductive tail_of :: "(addr \<Rightarrow> 'u command) \<Rightarrow> addr \<Rightarrow> addr \<Rightarrow> bool" where
  tail_here: "next_command (h a) = Some PyNone \<Longrightarrow> tail_of h a a"
| tail_next: "next_command (h a) = Some (Ref n) \<Longrightarrow> tail_of h n t \<Longrightarrow> tail_of h a t"

text \<open>The successor chain of \<open>a\<close> as a list, from \<open>a\<close> to its tail.\<close>

inductive chain :: "(addr \<Rightarrow> 'u command) \<Rightarrow> addr \<Rightarrow> addr list \<Rightarrow> bool" where
  chain_end: "next_command (h a) = Some PyNone \<Longrightarrow> chain h a [a]"
| chain_step: "next_command (h a) = Some (Ref n) \<Longrightarrow> chain h n xs \<Longrightarrow> chain h a (a # xs)"

text \<open>The successor chain of \<open>a\<close> reaches a command that has no attribute \<^verbatim>\<open>next_command\<close>.\<close>

inductive lacks_next_command :: "(addr \<Rightarrow> 'u command) \<Rightarrow> addr \<Rightarrow> bool" where
  lacks_here: "next_command (h a) = None \<Longrightarrow> lacks_next_command h a"
| lacks_next: "next_command (h a) = Some (Ref n) \<Longrightarrow> lacks_next_command h n \<Longrightarrow>
     lacks_next_command h a"

subsection \<open>\<^verbatim>\<open>DynamicCommand\<close>\<close>

text \<open>
  \<^verbatim>\<open>
  def setNextOption(self, nextCommand: Command, boolean_supplier):
      self.conditions.append(boolean_supplier)
      self.command_condition_pairs[boolean_supplier] = nextCommand
  \<close>
\<close>

definition setNextOption :: "pyval \<Rightarrow> addr \<Rightarrow> 'u command \<Rightarrow> 'u command" where
  "setNextOption nextCommand boolean_supplier c =
     (case kind c of
        DynamicCommand fr per conditions command_condition_pairs \<Rightarrow>
          c\<lparr>kind := DynamicCommand fr per (conditions @ [boolean_supplier])
                       (command_condition_pairs(boolean_supplier \<mapsto> nextCommand))\<rparr>
      | _ \<Rightarrow> c)"

text \<open>
  \<^verbatim>\<open>
  def is_complete(self) -> bool:
      for condition in self.conditions:
          if condition():
              self.setNext(self.command_condition_pairs[condition])
              return True
      return False
  \<close>
  Calling a condition reads the user state and is recorded in the trace.
\<close>

fun dynamic_is_complete ::
  "'u world \<Rightarrow> addr \<Rightarrow> (addr \<rightharpoonup> pyval) \<Rightarrow> addr list \<Rightarrow> (error + bool \<times> 'u world) option" where
  "dynamic_is_complete w self pairs [] = Some (Inr (False, w))"
| "dynamic_is_complete w self pairs (condition # rest) =
     (let w1 = log_event (ConditionCall condition) w in
      if callables w condition (user w) then
        (case pairs condition of
           None \<Rightarrow> Some (Inl (KeyError ''command_condition_pairs''))
         | Some v \<Rightarrow>
             (case setNext w1 self v of
                None \<Rightarrow> None
              | Some (Inl e) \<Rightarrow> Some (Inl e)
              | Some (Inr w2) \<Rightarrow> Some (Inr (True, w2))))
      else dynamic_is_complete w1 self pairs rest)"

text \<open>
  The state of a \<^verbatim>\<open>DynamicCommand\<close> after the calls \<^verbatim>\<open>setNextOption(s, p)\<close> for the pairs
  \<open>(p, s)\<close> of \<open>regs\<close>, in this order: \<^verbatim>\<open>conditions\<close> lists the callables, and the
  dictionary holds for each callable the command given with it last.
\<close>

definition registered :: "(addr \<times> pyval) list \<Rightarrow> 'u command \<Rightarrow> bool" where
  "registered regs c =
     (\<exists>fr per. kind c = DynamicCommand fr per (map fst regs) (map_of (rev regs)))"

subsection \<open>\<^verbatim>\<open>DelayCommand\<close>: reading the timer\<close>

text \<open>\<^verbatim>\<open>self.timer_subsystem.message["Unix"]\<close>: only a \<^verbatim>\<open>SystemTimeTopic\<close> has the attribute
  \<^verbatim>\<open>message\<close>.\<close>

definition timer_reading :: "'u world \<Rightarrow> addr \<Rightarrow> error + real" where
  "timer_reading w t =
     (case topic (subs w t) of
        None \<Rightarrow> Inl (AttributeError ''message'')
      | Some tf \<Rightarrow>
          (case generator tf of
             SystemTimeTopic m _ _ \<Rightarrow> Inr (Unix m)
           | UserTopic _ \<Rightarrow> Inl (AttributeError ''message'')))"

subsection \<open>\<^verbatim>\<open>ParallelCommand\<close>: the loops over \<^verbatim>\<open>self.commands\<close>\<close>

text \<open>
  The loops iterate over the list object \<^verbatim>\<open>self.commands\<close> by position, so each step reads
  the child that the list holds at that moment. The methods called on a child are parameters
  here; the recursive definition below passes itself.
\<close>

definition child_at :: "'u world \<Rightarrow> addr \<Rightarrow> nat \<Rightarrow> addr option" where
  "child_at w self i =
     (case kind (cmds w self) of
        ParallelCommand cs \<Rightarrow> (if i < length cs then Some (cs ! i) else None)
      | _ \<Rightarrow> None)"

definition set_child :: "nat \<Rightarrow> addr \<Rightarrow> 'u command \<Rightarrow> 'u command" where
  "set_child i n c =
     (case kind c of ParallelCommand cs \<Rightarrow> c\<lparr>kind := ParallelCommand (cs[i := n])\<rparr> | _ \<Rightarrow> c)"

definition set_first_run_occurred :: "'u command \<Rightarrow> 'u command" where
  "set_first_run_occurred c = c\<lparr>first_run_occurred := True\<rparr>"

text \<open>\<^verbatim>\<open>for command in self.commands: command.first_run()\<close>\<close>

fun parallel_first_run_loop ::
  "('u world \<Rightarrow> addr \<Rightarrow> (error + 'u world) option) \<Rightarrow> 'u world \<Rightarrow> addr \<Rightarrow> nat list \<Rightarrow>
   (error + 'u world) option" where
  "parallel_first_run_loop fr w self [] = Some (Inr w)"
| "parallel_first_run_loop fr w self (i # rest) =
     (case child_at w self i of
        None \<Rightarrow> Some (Inr w)
      | Some command \<Rightarrow>
          (case fr w command of
             None \<Rightarrow> None
           | Some (Inl e) \<Rightarrow> Some (Inl e)
           | Some (Inr w') \<Rightarrow> parallel_first_run_loop fr w' self rest))"

text \<open>
  \<^verbatim>\<open>
  for i, command in enumerate(self.commands):
      if command.is_complete() and command.next_command:
          self.commands[i] = command.next_command
          self.commands[i].first_run()
      else:
          command.periodic()
  \<close>
\<close>

definition parallel_periodic_body ::
  "('u world \<Rightarrow> addr \<Rightarrow> (error + bool \<times> 'u world) option) \<Rightarrow>
   ('u world \<Rightarrow> addr \<Rightarrow> (error + 'u world) option) \<Rightarrow>
   ('u world \<Rightarrow> addr \<Rightarrow> (error + 'u world) option) \<Rightarrow>
   'u world \<Rightarrow> addr \<Rightarrow> nat \<Rightarrow> addr \<Rightarrow> (error + 'u world) option" where
  "parallel_periodic_body ic fr per w self i command =
     (case ic w command of
        None \<Rightarrow> None
      | Some (Inl e) \<Rightarrow> Some (Inl e)
      | Some (Inr (finished, w1)) \<Rightarrow>
          if finished then
            (case next_command (cmds w1 command) of
               None \<Rightarrow> Some (Inl (AttributeError ''next_command''))
             | Some PyNone \<Rightarrow> per w1 command
             | Some (Ref n) \<Rightarrow>
                 (let w2 = update_cmd self (set_child i n) w1 in
                  case child_at w2 self i of
                    None \<Rightarrow> Some (Inl (IndexError ''list index out of range''))
                  | Some c \<Rightarrow> fr w2 c))
          else per w1 command)"

fun parallel_periodic_loop ::
  "('u world \<Rightarrow> addr \<Rightarrow> (error + bool \<times> 'u world) option) \<Rightarrow>
   ('u world \<Rightarrow> addr \<Rightarrow> (error + 'u world) option) \<Rightarrow>
   ('u world \<Rightarrow> addr \<Rightarrow> (error + 'u world) option) \<Rightarrow>
   'u world \<Rightarrow> addr \<Rightarrow> nat list \<Rightarrow> (error + 'u world) option" where
  "parallel_periodic_loop ic fr per w self [] = Some (Inr w)"
| "parallel_periodic_loop ic fr per w self (i # rest) =
     (case child_at w self i of
        None \<Rightarrow> Some (Inr w)
      | Some command \<Rightarrow>
          (case parallel_periodic_body ic fr per w self i command of
             None \<Rightarrow> None
           | Some (Inl e) \<Rightarrow> Some (Inl e)
           | Some (Inr w') \<Rightarrow> parallel_periodic_loop ic fr per w' self rest))"

text \<open>\<^verbatim>\<open>all(command.is_complete() for command in self.commands)\<close>: stops at the first child
  that reports false.\<close>

fun parallel_all_loop ::
  "('u world \<Rightarrow> addr \<Rightarrow> (error + bool \<times> 'u world) option) \<Rightarrow> 'u world \<Rightarrow> addr \<Rightarrow> nat list \<Rightarrow>
   (error + bool \<times> 'u world) option" where
  "parallel_all_loop ic w self [] = Some (Inr (True, w))"
| "parallel_all_loop ic w self (i # rest) =
     (case child_at w self i of
        None \<Rightarrow> Some (Inr (True, w))
      | Some command \<Rightarrow>
          (case ic w command of
             None \<Rightarrow> None
           | Some (Inl e) \<Rightarrow> Some (Inl e)
           | Some (Inr (finished, w')) \<Rightarrow>
               if finished then parallel_all_loop ic w' self rest else Some (Inr (False, w'))))"

subsection \<open>The methods of a command, by class\<close>

text \<open>
  \<^verbatim>\<open>
  def first_run(self):
      if not self.first_run_occurred:
          self.first_run_behavior()
          self.first_run_occurred = True
  \<close>
  The first argument bounds the depth of nested method calls (a \<^verbatim>\<open>ParallelCommand\<close> calls
  the methods of its children, which may be \<^verbatim>\<open>ParallelCommand\<close>s again); \<open>None\<close> means that
  the call did not return within it.
\<close>

fun first_run :: "nat \<Rightarrow> 'u world \<Rightarrow> addr \<Rightarrow> (error + 'u world) option"
  and first_run_behavior :: "nat \<Rightarrow> 'u world \<Rightarrow> addr \<Rightarrow> (error + 'u world) option"
  and periodic :: "nat \<Rightarrow> 'u world \<Rightarrow> addr \<Rightarrow> (error + 'u world) option"
  and is_complete :: "nat \<Rightarrow> 'u world \<Rightarrow> addr \<Rightarrow> (error + bool \<times> 'u world) option" where
  "first_run 0 w self = None"
| "first_run (Suc d) w self =
     (if \<not> first_run_occurred (cmds w self) then
        (case first_run_behavior d w self of
           None \<Rightarrow> None
         | Some (Inl e) \<Rightarrow> Some (Inl e)
         | Some (Inr w') \<Rightarrow> Some (Inr (update_cmd self set_first_run_occurred w')))
      else Some (Inr w))"
| "first_run_behavior 0 w self = None"
| "first_run_behavior (Suc d) w self =
     (case kind (cmds w self) of
        UserCommand fr per ic \<Rightarrow> Some (Inr (log_event (FirstRunBehavior self) (w\<lparr>user := fr (user w)\<rparr>)))
      | DynamicCommand fr per conditions pairs \<Rightarrow>
          Some (Inr (log_event (FirstRunBehavior self) (w\<lparr>user := fr (user w)\<rparr>)))
      | ParallelCommand cs \<Rightarrow>
          (case parallel_first_run_loop (first_run d) w self [0..<length cs] of
             None \<Rightarrow> None
           | Some (Inl e) \<Rightarrow> Some (Inl e)
           | Some (Inr w') \<Rightarrow> Some (Inr (update_cmd self set_first_run_occurred w')))
      | DelayCommand start_time delay_time timer \<Rightarrow>
          (case timer_reading w timer of
             Inl e \<Rightarrow> Some (Inl e)
           | Inr r \<Rightarrow>
               Some (Inr (update_cmd self
                 (\<lambda>c. set_first_run_occurred (c\<lparr>kind := DelayCommand (Some r) delay_time timer\<rparr>)) w))))"
| "periodic 0 w self = None"
| "periodic (Suc d) w self =
     (case kind (cmds w self) of
        UserCommand fr per ic \<Rightarrow> Some (Inr (log_event (PeriodicCall self) (w\<lparr>user := per (user w)\<rparr>)))
      | DynamicCommand fr per conditions pairs \<Rightarrow>
          Some (Inr (log_event (PeriodicCall self) (w\<lparr>user := per (user w)\<rparr>)))
      | ParallelCommand cs \<Rightarrow>
          parallel_periodic_loop (is_complete d) (first_run d) (periodic d) w self [0..<length cs]
      | DelayCommand start_time delay_time timer \<Rightarrow> Some (Inr w))"
| "is_complete 0 w self = None"
| "is_complete (Suc d) w self =
     (case kind (cmds w self) of
        UserCommand fr per ic \<Rightarrow> Some (Inr (ic (user w), log_event (IsCompleteCall self) w))
      | DynamicCommand fr per conditions pairs \<Rightarrow> dynamic_is_complete w self pairs conditions
      | ParallelCommand cs \<Rightarrow> parallel_all_loop (is_complete d) w self [0..<length cs]
      | DelayCommand start_time delay_time timer \<Rightarrow>
          (case timer_reading w timer of
             Inl e \<Rightarrow> Some (Inl e)
           | Inr r \<Rightarrow>
               (case start_time of
                  None \<Rightarrow> Some (Inl (TypeError ''unsupported operand type(s) for -''))
                | Some s \<Rightarrow> Some (Inr (r - s \<ge> delay_time, w)))))"

section \<open>Subscriber and Topic\<close>

text \<open>
  The constructors, with the readings of \<^verbatim>\<open>time.time()\<close> as arguments.
  \<^verbatim>\<open>
  def __init__(self, is_sim, subscriber_name="Abstract Subscriber"):       # Subscriber
      self.messages = {}
      self.is_sim = is_sim
      self.name = subscriber_name

  def __init__(self, name="Abstract Topic", is_sim=False):                 # Topic
      super().__init__(is_sim, name)
      self.subscribers = []
      self.message_body = {}
      self.__current_time = time.time()
      self.__previous_time = time.time()
      self.delta_time_seconds = self.__current_time - self.__previous_time
      self.replace_message_with_log = False

  def __init__(self, topic_name="SystemTime", is_sim=False):               # SystemTimeTopic
      super().__init__(topic_name, is_sim)
      self.replace_message_with_log = True
      self.message = {"Unix": time.time(), "DeltaTimeSeconds": 0.0}
      self.previous_time = time.time()
      self.has_periodic_call_occurred = False
  \<close>
  The user's methods of a subscriber are arguments; for a topic, \<^verbatim>\<open>subscriber_periodic\<close> is
  \<^verbatim>\<open>pass\<close> and \<^verbatim>\<open>initialize_hardware\<close> returns true.
\<close>

definition Subscriber_init ::
  "bool \<Rightarrow> string \<Rightarrow> ((string \<rightharpoonup> message) \<Rightarrow> 'u \<Rightarrow> 'u) \<Rightarrow> ('u \<Rightarrow> bool) \<Rightarrow> 'u subscriber" where
  "Subscriber_init sim_flag subscriber_name per hw =
     \<lparr>name = subscriber_name, messages = Map.empty, is_sim = sim_flag,
      subscriber_periodic_user = per, subscriber_periodic_sim_user = None,
      initialize_hardware_user = hw, topic = None\<rparr>"

definition Topic_init ::
  "string \<Rightarrow> bool \<Rightarrow> real \<Rightarrow> real \<Rightarrow> 'u generator \<Rightarrow> 'u subscriber" where
  "Topic_init n sim_flag now1 now2 gen =
     (Subscriber_init sim_flag n (\<lambda>_ u. u) (\<lambda>_. True))
       \<lparr>topic := Some \<lparr>subscribers = [], message_body = PDict [], current_time = now1,
                       previous_time = now2, delta_time_seconds = now1 - now2,
                       replace_message_with_log = False, generator = gen\<rparr>\<rparr>"

definition SystemTimeTopic_init ::
  "string \<Rightarrow> bool \<Rightarrow> real \<Rightarrow> real \<Rightarrow> real \<Rightarrow> real \<Rightarrow> 'u subscriber" where
  "SystemTimeTopic_init topic_name sim_flag now1 now2 now3 now4 =
     (let t = Topic_init topic_name sim_flag now1 now2
                (SystemTimeTopic \<lparr>Unix = now3, DeltaTimeSeconds = 0\<rparr> now4 False)
      in t\<lparr>topic := map_option (\<lambda>tf. tf\<lparr>replace_message_with_log := True\<rparr>) (topic t)\<rparr>)"

text \<open>\<^verbatim>\<open>def add_subscriber(self, sub): self.subscribers.append(sub)\<close>\<close>

definition add_subscriber :: "addr \<Rightarrow> 'u subscriber \<Rightarrow> 'u subscriber" where
  "add_subscriber sub t =
     t\<lparr>topic := map_option (\<lambda>tf. tf\<lparr>subscribers := subscribers tf @ [sub]\<rparr>) (topic t)\<rparr>"

text \<open>
  \<^verbatim>\<open>
  def store_messages(self, topic_name: str, message: 'Message'):
      self.messages[topic_name] = message

  def notify_subscribers(self, msg: Message):
      for sub in self.subscribers:
          sub.store_messages(self.name, msg)
  \<close>
\<close>

definition store_messages :: "string \<Rightarrow> message \<Rightarrow> 'u subscriber \<Rightarrow> 'u subscriber" where
  "store_messages topic_name msg s = s\<lparr>messages := (messages s)(topic_name \<mapsto> msg)\<rparr>"

fun notify_loop :: "string \<Rightarrow> message \<Rightarrow> addr list \<Rightarrow> 'u world \<Rightarrow> 'u world" where
  "notify_loop nm msg [] w = w"
| "notify_loop nm msg (sub # rest) w = notify_loop nm msg rest (update_sub sub (store_messages nm msg) w)"

definition notify_subscribers :: "addr \<Rightarrow> 'u topic_fields \<Rightarrow> message \<Rightarrow> 'u world \<Rightarrow> 'u world" where
  "notify_subscribers self tf msg w = notify_loop (name (subs w self)) msg (subscribers tf) w"

definition update_topic :: "addr \<Rightarrow> ('u topic_fields \<Rightarrow> 'u topic_fields) \<Rightarrow> 'u world \<Rightarrow> 'u world" where
  "update_topic a f w = update_sub a (\<lambda>s. s\<lparr>topic := map_option f (topic s)\<rparr>) w"

text \<open>
  \<^verbatim>\<open>
  def generate_messages_periodic(self):          # SystemTimeTopic
      if not self.has_periodic_call_occurred:
          self.has_periodic_call_occurred = True
          self.previous_time = time.time()
      current_time = time.time()
      self.message["Unix"] = current_time
      self.message["DeltaTimeSeconds"] = current_time - self.previous_time
      self.previous_time = current_time
      return self.message
  \<close>
  For a user's topic the method is the user's function of the stored messages, the delta and
  the user state.
\<close>

definition generate_messages_periodic :: "addr \<Rightarrow> 'u topic_fields \<Rightarrow> 'u world \<Rightarrow> pyval \<times> 'u world" where
  "generate_messages_periodic self tf w =
     (case generator tf of
        UserTopic gen \<Rightarrow>
          (let (v, u) = gen (messages (subs w self)) (delta_time_seconds tf) (user w)
           in (v, log_event (GenerateMessages self) (w\<lparr>user := u\<rparr>)))
      | SystemTimeTopic m prev occurred \<Rightarrow>
          (let (prev1, w1) = (if \<not> occurred then time_time w else (prev, w));
               (current, w2) = time_time w1;
               m' = \<lparr>Unix = current, DeltaTimeSeconds = current - prev1\<rparr>
           in (time_payload m',
               update_topic self (\<lambda>t. t\<lparr>generator := SystemTimeTopic m' current True\<rparr>) w2)))"

text \<open>
  \<^verbatim>\<open>
  def publish_periodic(self) -> Tuple[Message, float, float]:
      self.__current_time = time.time()
      self.delta_time_seconds = self.__current_time - self.__previous_time
      self.message_body = self.generate_messages_periodic()
      self.__previous_time = self.__current_time
      msg = Message(self.message_body)
      self.notify_subscribers(msg)
      return msg, self.__current_time, self.delta_time_seconds
  \<close>
  An object of the topic list that is no \<^verbatim>\<open>Topic\<close> has no such method.
\<close>

definition publish_periodic :: "addr \<Rightarrow> 'u world \<Rightarrow> error + (message \<times> real \<times> real) \<times> 'u world" where
  "publish_periodic self w =
     (case topic (subs w self) of
        None \<Rightarrow> Inl (AttributeError ''publish_periodic'')
      | Some tf0 \<Rightarrow>
          (let (now, w1) = time_time w;
               delta = now - previous_time tf0;
               tf1 = tf0\<lparr>current_time := now, delta_time_seconds := delta\<rparr>;
               w2 = update_topic self (\<lambda>_. tf1) w1;
               (body, w3) = generate_messages_periodic self tf1 w2;
               w4 = update_topic self (\<lambda>t. t\<lparr>message_body := body, previous_time := now\<rparr>) w3;
               (stamp, w5) = time_time w4
           in case Message stamp body of
                Inl e \<Rightarrow> Inl e
              | Inr msg \<Rightarrow> Inr ((msg, now, delta), notify_subscribers self tf1 msg w5)))"

text \<open>
  \<^verbatim>\<open>
  def publish_periodic_from_log(self, message_from_log, current_time, delta_time_seconds):
      self.__current_time = current_time
      self.delta_time_seconds = delta_time_seconds
      self.__previous_time = self.__current_time
      self.notify_subscribers(message_from_log)
      return message_from_log, self.__current_time, self.delta_time_seconds
  \<close>
\<close>

definition publish_periodic_from_log ::
  "addr \<Rightarrow> message \<Rightarrow> real \<Rightarrow> real \<Rightarrow> 'u world \<Rightarrow> error + (message \<times> real \<times> real) \<times> 'u world" where
  "publish_periodic_from_log self message_from_log current delta w =
     (case topic (subs w self) of
        None \<Rightarrow> Inl (AttributeError ''publish_periodic_from_log'')
      | Some tf0 \<Rightarrow>
          (let tf1 = tf0\<lparr>current_time := current, delta_time_seconds := delta, previous_time := current\<rparr>;
               w1 = update_topic self (\<lambda>_. tf1) w
           in Inr ((message_from_log, current, delta), notify_subscribers self tf1 message_from_log w1)))"

text \<open>
  \<^verbatim>\<open>
  def periodic(self):                      # Subscriber
      if self.is_sim:
          self.subscriber_periodic_sim()
      else:
          self.subscriber_periodic()

  def subscriber_periodic_sim(self):
      self.subscriber_periodic()
  \<close>
\<close>

definition subscriber_periodic :: "addr \<Rightarrow> 'u world \<Rightarrow> 'u world" where
  "subscriber_periodic self w =
     log_event (SubscriberPeriodic self)
       (w\<lparr>user := subscriber_periodic_user (subs w self) (messages (subs w self)) (user w)\<rparr>)"

definition subscriber_periodic_sim :: "addr \<Rightarrow> 'u world \<Rightarrow> 'u world" where
  "subscriber_periodic_sim self w =
     (case subscriber_periodic_sim_user (subs w self) of
        None \<Rightarrow> subscriber_periodic self w
      | Some f \<Rightarrow> log_event (SubscriberPeriodicSim self) (w\<lparr>user := f (messages (subs w self)) (user w)\<rparr>))"

definition periodic_Subscriber :: "addr \<Rightarrow> 'u world \<Rightarrow> 'u world" where
  "periodic_Subscriber self w =
     (if is_sim (subs w self) then subscriber_periodic_sim self w else subscriber_periodic self w)"

section \<open>Scheduler\<close>

text \<open>
  The log index \<^verbatim>\<open>read_topics\<close> maps a tick time to the logged entries of that tick:
  for each topic name the message dictionary, the publish time and the delta.
\<close>

type_synonym log_entries = "(string \<times> pyval \<times> real \<times> real) list"

record scheduler =
  topics :: "addr list"
  subscribers_Scheduler :: "addr list"
  is_sim_Scheduler :: bool
  throw_exception_on_init_failure :: bool
  root_command :: ref
  writing_file_name :: "path option"
  file_reading_name :: "path option"
  read_topics :: "(real \<times> log_entries) list option"
  time_stamps :: "real list option"

text \<open>\<^verbatim>\<open>Scheduler.__init__(is_sim, file_reading_name)\<close>.\<close>

definition Scheduler_init :: "bool \<Rightarrow> path option \<Rightarrow> scheduler" where
  "Scheduler_init is_sim_arg reading =
     \<lparr>topics = [], subscribers_Scheduler = [], is_sim_Scheduler = is_sim_arg, throw_exception_on_init_failure = True,
      root_command = PyNone, writing_file_name = None, file_reading_name = reading,
      read_topics = None, time_stamps = None\<rparr>"

definition add_topics :: "addr list \<Rightarrow> scheduler \<Rightarrow> scheduler" where
  "add_topics args s = s\<lparr>topics := topics s @ args\<rparr>"

definition add_subscribers :: "addr list \<Rightarrow> scheduler \<Rightarrow> scheduler" where
  "add_subscribers args s = s\<lparr>subscribers_Scheduler := subscribers_Scheduler s @ args\<rparr>"

definition set_command_group :: "ref \<Rightarrow> scheduler \<Rightarrow> scheduler" where
  "set_command_group head s = s\<lparr>root_command := head\<rparr>"

subsection \<open>The log utility\<close>

text \<open>
  Modelled from the spec: the module \<^verbatim>\<open>architecture.topicLogUtil\<close> is not part of the
  sources. The spec gives its contract:
  \<^verbatim>\<open>load(path) -> (ordered timestamps, raw per-tick contents)\<close>.
  A missing file is an error of the operating system.
\<close>

fun tick_of :: "log_line \<Rightarrow> (real \<times> log_entries) list" where
  "tick_of Header = []"
| "tick_of (Tick t entries) = [(t, entries)]"

definition dump_file_contents ::
  "path \<Rightarrow> (path \<rightharpoonup> log_line list) \<Rightarrow> error + real list \<times> log_entries list" where
  "dump_file_contents p fs =
     (case fs p of
        None \<Rightarrow> Inl (OSError ''No such file or directory'')
      | Some lines \<Rightarrow> Inr (map fst (concat (map tick_of lines)), map snd (concat (map tick_of lines))))"

text \<open>
  Modelled from the spec: \<^verbatim>\<open>index(timestamps, contents) -> per-topic time-indexed lookup\<close>
  (\<^verbatim>\<open>topicLogUtil.construct_dictionary_of_messages_vs_time\<close>, not part of the sources).
\<close>

definition construct_dictionary_of_messages_vs_time ::
  "real list \<Rightarrow> log_entries list \<Rightarrow> (real \<times> log_entries) list" where
  "construct_dictionary_of_messages_vs_time stamps contents = zip stamps contents"

text \<open>
  Modelled from the spec:
  \<^verbatim>\<open>lookup(time, index) -> mapping topic-name -> (message, time, delta)\<close>
  (\<^verbatim>\<open>topicLogUtil.get_message_at_time\<close>, not part of the sources). A time that the index does
  not hold has no entries.
\<close>

definition get_message_at_time ::
  "real \<Rightarrow> (real \<times> log_entries) list option \<Rightarrow> (string \<rightharpoonup> pyval \<times> real \<times> real)" where
  "get_message_at_time t idx =
     (case idx of
        None \<Rightarrow> Map.empty
      | Some ix \<Rightarrow> (case map_of ix t of None \<Rightarrow> Map.empty | Some entries \<Rightarrow> map_of entries))"

subsection \<open>\<^verbatim>\<open>Scheduler.initialize\<close>\<close>

text \<open>
  \<^verbatim>\<open>
  def begin_log(self):
      if not self.is_sim:
          self.writing_file_name = "log_" + str(int(time.time())) + ".csv"
          with open(self.writing_file_name, 'w') as self.f:
              self.f.write("Time, TopicMessageDictionaries\n")
  \<close>
\<close>

text \<open>Python's \<^verbatim>\<open>int(x)\<close> of a float: truncation towards zero.\<close>

definition py_int :: "real \<Rightarrow> int" where
  "py_int x = (if 0 \<le> x then \<lfloor>x\<rfloor> else \<lceil>x\<rceil>)"

definition begin_log :: "scheduler \<times> 'u world \<Rightarrow> scheduler \<times> 'u world" where
  "begin_log sw =
     (let (s, w) = sw in
      if \<not> is_sim_Scheduler s then
        (let (now, w1) = time_time w; file = LogCsv (py_int now)
         in (s\<lparr>writing_file_name := Some file\<rparr>, w1\<lparr>files := (files w1)(file \<mapsto> [Header])\<rparr>))
      else (s, w))"

text \<open>
  \<^verbatim>\<open>
  def init_hardware(self):
      for sub in self.subscribers:
          success = sub.initialize_hardware()
          if self.throw_exception_on_init_failure and not success:
              raise RuntimeError("Hardware for Subscriber, '{}' failed to initialize, aborting init".format(sub.name))
          sub.is_sim = self.is_sim
  \<close>
\<close>

definition hardware_failure :: "string \<Rightarrow> error" where
  "hardware_failure n =
     RuntimeError (''Hardware for Subscriber, '' @ [CHR 0x27] @ n @ [CHR 0x27] @
       '' failed to initialize, aborting init'')"

fun init_hardware :: "scheduler \<Rightarrow> addr list \<Rightarrow> 'u world \<Rightarrow> (error + unit) \<times> 'u world" where
  "init_hardware s [] w = (Inr (), w)"
| "init_hardware s (sub # rest) w =
     (let success = initialize_hardware_user (subs w sub) (user w);
          w1 = log_event (InitializeHardware sub) w
      in if throw_exception_on_init_failure s \<and> \<not> success
         then (Inl (hardware_failure (name (subs w sub))), w1)
         else init_hardware s rest (update_sub sub (\<lambda>x. x\<lparr>is_sim := is_sim_Scheduler s\<rparr>) w1))"

text \<open>
  \<^verbatim>\<open>
  def check_topic_name_collision(self):
      visited_topics = []
      for topic in self.topics:
          for topic_other in visited_topics:
              if topic.name == topic_other.name:
                  raise RuntimeError("Two or more Topics cannot have the same name: {}, Please Check your Configuration".format(topic.name))
          visited_topics.append(topic)
          for sub in self.subscribers:
              if topic.name == sub.name:
                  raise RuntimeError("Topic and Subscriber cannot have the same name: {}".format(topic.name))
  \<close>
  The loops read names only, so they run over the lists of names.
\<close>

definition topic_collision :: "string \<Rightarrow> error" where
  "topic_collision n =
     RuntimeError (''Two or more Topics cannot have the same name: '' @ n @
       '', Please Check your Configuration'')"

definition subscriber_collision :: "string \<Rightarrow> error" where
  "subscriber_collision n = RuntimeError (''Topic and Subscriber cannot have the same name: '' @ n)"

fun collision_loop :: "string list \<Rightarrow> string list \<Rightarrow> string list \<Rightarrow> error + unit" where
  "collision_loop visited_topics sub_names [] = Inr ()"
| "collision_loop visited_topics sub_names (t # rest) =
     (if t \<in> set visited_topics then Inl (topic_collision t)
      else if t \<in> set sub_names then Inl (subscriber_collision t)
      else collision_loop (visited_topics @ [t]) sub_names rest)"

definition check_topic_name_collision :: "scheduler \<Rightarrow> 'u world \<Rightarrow> error + unit" where
  "check_topic_name_collision s w =
     collision_loop [] (map (\<lambda>a. name (subs w a)) (subscribers_Scheduler s))
       (map (\<lambda>a. name (subs w a)) (topics s))"

text \<open>
  \<^verbatim>\<open>
  def initialize(self):
      self.topics = dependecy_sort(self.topics)
      if cycle_is_present_in_any(self.topics):
          raise TopicCircularDependency("There is a circular dependency in the topics, aborting init")
      for topic in self.topics:
          print("Topic name: {}".format(topic.name))
      self.begin_log()
      self.init_hardware()
      self.check_topic_name_collision()
      if self.is_sim:
          if self.file_reading_name is None:
              raise Exception("Must provide file name to read from in simulation mode.")
          self.time_stamps, messages_contents = topicLogUtil.dump_file_contents(self.file_reading_name)
          self.read_topics = topicLogUtil.construct_dictionary_of_messages_vs_time(self.time_stamps, messages_contents)
  \<close>
  The module \<^verbatim>\<open>pyros_math.graph_theory\<close> is not part of the sources (nor is the way a topic
  declares what it depends on): \<open>dependecy_sort\<close> and \<open>cycle_is_present_in_any\<close> are parameters,
  functions of the topic objects and the topic list. The result keeps the state in which an
  exception leaves the scheduler and the world.
\<close>

definition initialize ::
  "((addr \<Rightarrow> 'u subscriber) \<Rightarrow> addr list \<Rightarrow> addr list) \<Rightarrow>
   ((addr \<Rightarrow> 'u subscriber) \<Rightarrow> addr list \<Rightarrow> bool) \<Rightarrow>
   scheduler \<times> 'u world \<Rightarrow> (error + unit) \<times> scheduler \<times> 'u world" where
  "initialize dependecy_sort cycle_is_present_in_any sw =
     (let (s0, w0) = sw;
          s1 = s0\<lparr>topics := dependecy_sort (subs w0) (topics s0)\<rparr>
      in if cycle_is_present_in_any (subs w0) (topics s1)
         then (Inl (TopicCircularDependency
                 ''There is a circular dependency in the topics, aborting init''), s1, w0)
         else
           (let w1 = w0\<lparr>stdout := stdout w0 @ map (\<lambda>a. ''Topic name: '' @ name (subs w0 a)) (topics s1)\<rparr>;
                (s2, w2) = begin_log (s1, w1)
            in case init_hardware s2 (subscribers_Scheduler s2) w2 of
                 (Inl e, w3) \<Rightarrow> (Inl e, s2, w3)
               | (Inr _, w3) \<Rightarrow>
                   (case check_topic_name_collision s2 w3 of
                      Inl e \<Rightarrow> (Inl e, s2, w3)
                    | Inr _ \<Rightarrow>
                        if is_sim_Scheduler s2 then
                          (case file_reading_name s2 of
                             None \<Rightarrow>
                               (Inl (Exception
                                  ''Must provide file name to read from in simulation mode.''), s2, w3)
                           | Some p \<Rightarrow>
                               (case dump_file_contents p (files w3) of
                                  Inl e \<Rightarrow> (Inl e, s2, w3)
                                | Inr (stamps, messages_contents) \<Rightarrow>
                                    (Inr (),
                                     s2\<lparr>time_stamps := Some stamps,
                                        read_topics := Some (construct_dictionary_of_messages_vs_time
                                                              stamps messages_contents)\<rparr>,
                                     w3)))
                        else (Inr (), s2, w3))))"

subsection \<open>\<^verbatim>\<open>Scheduler.periodic\<close>\<close>

text \<open>
  \<^verbatim>\<open>
  present_time = time.time()
  if self.is_sim:
      present_time = self.time_stamps.pop(0)
  \<close>
\<close>

definition pop_time :: "real \<Rightarrow> scheduler \<Rightarrow> error + real \<times> scheduler" where
  "pop_time now s =
     (if is_sim_Scheduler s then
        (case time_stamps s of
           None \<Rightarrow> Inl (AttributeError ''pop'')
         | Some [] \<Rightarrow> Inl (IndexError ''pop from empty list'')
         | Some (t # rest) \<Rightarrow> Inr (t, s\<lparr>time_stamps := Some rest\<rparr>))
      else Inr (now, s))"

text \<open>
  \<^verbatim>\<open>
  if not self.root_command is None and not self.root_command.first_run_occured:
      self.root_command.first_run()
  \<close>
  The attribute read here is \<^verbatim>\<open>first_run_occured\<close>; \<^verbatim>\<open>Command\<close> assigns
  \<^verbatim>\<open>first_run_occurred\<close>.
\<close>

definition root_first_run :: "nat \<Rightarrow> scheduler \<Rightarrow> 'u world \<Rightarrow> (error + 'u world) option" where
  "root_first_run d s w =
     (case root_command s of
        PyNone \<Rightarrow> Some (Inr w)
      | Ref r \<Rightarrow>
          (case first_run_occured (cmds w r) of
             None \<Rightarrow> Some (Inl (AttributeError ''first_run_occured''))
           | Some occured \<Rightarrow> if \<not> occured then first_run d w r else Some (Inr w)))"

text \<open>
  \<^verbatim>\<open>
  def advance_command(self):
      if self.root_command and self.root_command.is_complete():
          self.root_command = self.root_command.next_command
  \<close>
\<close>

definition advance_command :: "nat \<Rightarrow> scheduler \<Rightarrow> 'u world \<Rightarrow> (error + scheduler \<times> 'u world) option" where
  "advance_command d s w =
     (case root_command s of
        PyNone \<Rightarrow> Some (Inr (s, w))
      | Ref r \<Rightarrow>
          (case is_complete d w r of
             None \<Rightarrow> None
           | Some (Inl e) \<Rightarrow> Some (Inl e)
           | Some (Inr (finished, w1)) \<Rightarrow>
               if finished then
                 (case next_command (cmds w1 r) of
                    None \<Rightarrow> Some (Inl (AttributeError ''next_command''))
                  | Some nx \<Rightarrow> Some (Inr (s\<lparr>root_command := nx\<rparr>, w1)))
               else Some (Inr (s, w1))))"

text \<open>
  \<^verbatim>\<open>
  if self.root_command is not None:
      self.root_command.periodic()
  else:
      print("No further command to execute")
  \<close>
\<close>

definition root_periodic :: "nat \<Rightarrow> scheduler \<Rightarrow> 'u world \<Rightarrow> (error + 'u world) option" where
  "root_periodic d s w =
     (case root_command s of
        Ref r \<Rightarrow> periodic d w r
      | PyNone \<Rightarrow> Some (Inr (w\<lparr>stdout := stdout w @ [''No further command to execute'']\<rparr>)))"

text \<open>
  The body of the loop over the topics:
  \<^verbatim>\<open>
  if self.is_sim and topic.replace_message_with_log:
      message_dictionary, current_time_seconds, delta_time_seconds = all_logged_messages[topic.name]
      message = Message(message_dictionary)
      message.time_stamp = current_time_seconds
      topic.publish_periodic_from_log(message, current_time_seconds, delta_time_seconds)
      stored_messages[topic.name] = "{0}, {1}, {2}".format(json.dumps(message.message), current_time_seconds, delta_time_seconds)
  else:
      message, current_time_seconds, delta_time_seconds = topic.publish_periodic()
      stored_messages[topic.name] = "{0}, {1}, {2}".format(json.dumps(message.message), current_time_seconds, delta_time_seconds)
  \<close>
  The result is the entry stored under the topic's name.
\<close>

definition publish_step ::
  "bool \<Rightarrow> (string \<rightharpoonup> pyval \<times> real \<times> real) \<Rightarrow> addr \<Rightarrow> 'u world \<Rightarrow>
   error + (string \<times> pyval \<times> real \<times> real) \<times> 'u world" where
  "publish_step is_sim_flag all_logged_messages t w =
     (if is_sim_flag then
        (case topic (subs w t) of
           None \<Rightarrow> Inl (AttributeError ''replace_message_with_log'')
         | Some tf \<Rightarrow>
             if replace_message_with_log tf then
               (case all_logged_messages (name (subs w t)) of
                  None \<Rightarrow> Inl (KeyError (name (subs w t)))
                | Some (message_dictionary, current_time_seconds, delta_seconds) \<Rightarrow>
                    (let (stamp, w1) = time_time w in
                     case Message stamp message_dictionary of
                       Inl e \<Rightarrow> Inl e
                     | Inr m \<Rightarrow>
                         (let msg = m\<lparr>time_stamp := current_time_seconds\<rparr> in
                          case publish_periodic_from_log t msg current_time_seconds delta_seconds w1 of
                            Inl e \<Rightarrow> Inl e
                          | Inr (_, w2) \<Rightarrow>
                              Inr ((name (subs w t), message msg, current_time_seconds,
                                    delta_seconds), w2))))
             else
               (case publish_periodic t w of
                  Inl e \<Rightarrow> Inl e
                | Inr ((msg, current_time_seconds, delta_seconds), w1) \<Rightarrow>
                    Inr ((name (subs w t), message msg, current_time_seconds, delta_seconds), w1)))
      else
        (case publish_periodic t w of
           Inl e \<Rightarrow> Inl e
         | Inr ((msg, current_time_seconds, delta_seconds), w1) \<Rightarrow>
             Inr ((name (subs w t), message msg, current_time_seconds, delta_seconds), w1)))"

fun publish_loop ::
  "bool \<Rightarrow> (string \<rightharpoonup> pyval \<times> real \<times> real) \<Rightarrow> addr list \<Rightarrow> log_entries \<Rightarrow> 'u world \<Rightarrow>
   error + log_entries \<times> 'u world" where
  "publish_loop is_sim_flag logged [] stored_messages w = Inr (stored_messages, w)"
| "publish_loop is_sim_flag logged (t # rest) stored_messages w =
     (case publish_step is_sim_flag logged t w of
        Inl e \<Rightarrow> Inl e
      | Inr ((n, entry), w1) \<Rightarrow>
          publish_loop is_sim_flag logged rest (AList.update n entry stored_messages) w1)"

text \<open>
  \<^verbatim>\<open>
  if not self.is_sim and stored_messages:
      with open(self.writing_file_name, 'a+') as self.f:
          self.f.write("{0}, {1}\n".format(present_time, json.dumps(stored_messages)))
  \<close>
\<close>

definition write_log :: "real \<Rightarrow> log_entries \<Rightarrow> scheduler \<Rightarrow> 'u world \<Rightarrow> error + 'u world" where
  "write_log present_time stored_messages s w =
     (if \<not> is_sim_Scheduler s \<and> stored_messages \<noteq> [] then
        (case writing_file_name s of
           None \<Rightarrow> Inl (TypeError ''expected str, bytes or os.PathLike object, not NoneType'')
         | Some f \<Rightarrow>
             Inr (w\<lparr>files := (files w)(f \<mapsto>
                    (case files w f of None \<Rightarrow> [] | Some ls \<Rightarrow> ls) @ [Tick present_time stored_messages])\<rparr>))
      else Inr w)"

text \<open>
  The second half of a tick: the topics publish, the log line is written, then
  \<^verbatim>\<open>for sub in self.subscribers: sub.periodic()\<close> and
  \<^verbatim>\<open>for topic in self.topics: topic.periodic()\<close>.
\<close>

definition publish_phase :: "real \<Rightarrow> scheduler \<Rightarrow> 'u world \<Rightarrow> error + 'u world" where
  "publish_phase present_time s w =
     (let all_logged_messages =
            (if is_sim_Scheduler s then get_message_at_time present_time (read_topics s) else Map.empty)
      in case publish_loop (is_sim_Scheduler s) all_logged_messages (topics s) [] w of
           Inl e \<Rightarrow> Inl e
         | Inr (stored_messages, w1) \<Rightarrow>
             (case write_log present_time stored_messages s w1 of
                Inl e \<Rightarrow> Inl e
              | Inr w2 \<Rightarrow>
                  Inr (fold periodic_Subscriber (topics s)
                        (fold periodic_Subscriber (subscribers_Scheduler s) w2))))"

text \<open>One tick. The first argument bounds the depth of nested command calls.\<close>

definition periodic_Scheduler ::
  "nat \<Rightarrow> scheduler \<times> 'u world \<Rightarrow> (error + scheduler \<times> 'u world) option" where
  "periodic_Scheduler d sw =
     (let (s0, w0) = sw; (now, w1) = time_time w0 in
      case pop_time now s0 of
        Inl e \<Rightarrow> Some (Inl e)
      | Inr (present_time, s1) \<Rightarrow>
          (case root_first_run d s1 w1 of
             None \<Rightarrow> None
           | Some (Inl e) \<Rightarrow> Some (Inl e)
           | Some (Inr w2) \<Rightarrow>
               (case advance_command d s1 w2 of
                  None \<Rightarrow> None
                | Some (Inl e) \<Rightarrow> Some (Inl e)
                | Some (Inr (s2, w3)) \<Rightarrow>
                    (case root_periodic d s2 w3 of
                       None \<Rightarrow> None
                     | Some (Inl e) \<Rightarrow> Some (Inl e)
                     | Some (Inr w4) \<Rightarrow>
                         (case publish_phase present_time s2 w4 of
                            Inl e \<Rightarrow> Some (Inl e)
                          | Inr w5 \<Rightarrow> Some (Inr (s2, w5)))))))"

subsection \<open>The timer as a \<^verbatim>\<open>DelayCommand\<close> reads it\<close>

text \<open>The object \<open>T\<close> is a \<^verbatim>\<open>SystemTimeTopic\<close> with \<^verbatim>\<open>replace_message_with_log\<close> set (as its
  constructor sets it) whose dictionary \<^verbatim>\<open>message\<close> holds \<open>r\<close> under \<^verbatim>\<open>"Unix"\<close>.\<close>

definition replayed_timer :: "'u world \<Rightarrow> addr \<Rightarrow> real \<Rightarrow> bool" where
  "replayed_timer w T r =
     (\<exists>tf m pt oc. topic (subs w T) = Some tf \<and> generator tf = SystemTimeTopic m pt oc \<and>
        Unix m = r \<and> replace_message_with_log tf)"

section \<open>Example configurations\<close>

text \<open>Concrete objects and worlds on which the theorems below are instantiated. The user
  state is \<open>unit\<close>.\<close>

definition idle_command :: "unit command" where
  "idle_command = Command_init (UserCommand id id (\<lambda>_. False))"

definition plain_subscriber :: "string \<Rightarrow> unit subscriber" where
  "plain_subscriber n = Subscriber_init False n (\<lambda>_ u. u) (\<lambda>_. True)"

definition empty_world :: "unit world" where
  "empty_world =
     \<lparr>cmds = (\<lambda>_. idle_command), subs = (\<lambda>_. plain_subscriber ''Abstract Subscriber''),
      callables = (\<lambda>_ _. False), user = (), clock = (\<lambda>n. 100 + real n), reads = 0,
      files = Map.empty, stdout = [], trace = []\<rparr>"

text \<open>The chain \<open>0 \<rightarrow> 1 \<rightarrow> 2\<close>; every other command has no successor.\<close>

definition chain_world :: "unit world" where
  "chain_world =
     empty_world\<lparr>cmds := (\<lambda>_. idle_command)
       (0 := idle_command\<lparr>next_command := Some (Ref 1)\<rparr>,
        1 := idle_command\<lparr>next_command := Some (Ref 2)\<rparr>)\<rparr>"

text \<open>Command \<open>0\<close> is followed by command \<open>1\<close>, which is its own successor.\<close>

definition cyclic_world :: "unit world" where
  "cyclic_world =
     empty_world\<lparr>cmds := (\<lambda>_. idle_command)
       (0 := idle_command\<lparr>next_command := Some (Ref 1)\<rparr>,
        1 := idle_command\<lparr>next_command := Some (Ref 1)\<rparr>)\<rparr>"

text \<open>Command \<open>0\<close> is a \<^verbatim>\<open>DynamicCommand\<close> with the one option (callable \<open>10\<close>, command \<open>1\<close>);
  the callable returns true.\<close>

definition dynamic_world :: "unit world" where
  "dynamic_world =
     empty_world\<lparr>cmds := (\<lambda>_. idle_command)
                      (0 := setNextOption (PCommand 1) 10 (DynamicCommand_init id id)),
                  callables := (\<lambda>_ _. False)(10 := (\<lambda>_. True))\<rparr>"

text \<open>The same \<^verbatim>\<open>DynamicCommand\<close> \<open>0\<close> with the successor \<open>1\<close>, which is its own
  successor.\<close>

definition dynamic_cyclic_world :: "unit world" where
  "dynamic_cyclic_world =
     dynamic_world\<lparr>cmds := (cmds dynamic_world)
       (0 := (cmds dynamic_world 0)\<lparr>next_command := Some (Ref 1)\<rparr>,
        1 := idle_command\<lparr>next_command := Some (Ref 1)\<rparr>)\<rparr>"

text \<open>Command \<open>0\<close> is a \<^verbatim>\<open>DynamicCommand\<close> that was given the successor \<open>3\<close> with
  \<^verbatim>\<open>setNext\<close>, and then the same callable \<open>10\<close> twice: with command \<open>1\<close> and with
  command \<open>2\<close>.\<close>

definition twice_world :: "unit world" where
  "twice_world =
     empty_world\<lparr>cmds := (\<lambda>_. idle_command)
                      (0 := (setNextOption (PCommand 2) 10
                              (setNextOption (PCommand 1) 10 (DynamicCommand_init id id)))
                            \<lparr>next_command := Some (Ref 3)\<rparr>),
                  callables := (\<lambda>_ _. False)(10 := (\<lambda>_. True))\<rparr>"

text \<open>Command \<open>0\<close> is \<^verbatim>\<open>ParallelCommand([inner])\<close>, where \<open>inner = 1\<close> is
  \<^verbatim>\<open>ParallelCommand([])\<close>.\<close>

definition nested_world :: "unit world" where
  "nested_world =
     empty_world\<lparr>cmds := (\<lambda>_. idle_command)
                      (0 := ParallelCommand_init [1], 1 := ParallelCommand_init [])\<rparr>"

text \<open>A scheduler in live mode whose root command \<open>0\<close> is \<^verbatim>\<open>DelayCommand(2.0, timer)\<close>.\<close>

definition delay_root_world :: "unit world" where
  "delay_root_world = empty_world\<lparr>cmds := (\<lambda>_. idle_command)(0 := DelayCommand_init 2 5)\<rparr>"

definition delay_root_scheduler :: scheduler where
  "delay_root_scheduler = set_command_group (Ref 0) (Scheduler_init False None)"

text \<open>
  Stand-ins for the two functions of \<^verbatim>\<open>pyros_math.graph_theory\<close>, to instantiate the
  parameters of \<open>initialize\<close>: the order is left as it is, and a cycle is reported when a topic
  of the list is registered as its own subscriber.
\<close>

definition keep_order :: "(addr \<Rightarrow> unit subscriber) \<Rightarrow> addr list \<Rightarrow> addr list" where
  "keep_order h ts = ts"

definition subscribed_to_itself :: "(addr \<Rightarrow> unit subscriber) \<Rightarrow> addr list \<Rightarrow> bool" where
  "subscribed_to_itself h ts =
     list_ex (\<lambda>t. case topic (h t) of None \<Rightarrow> False | Some tf \<Rightarrow> t \<in> set (subscribers tf)) ts"

definition constant_topic :: "string \<Rightarrow> unit subscriber" where
  "constant_topic n = Topic_init n False 0 0 (UserTopic (\<lambda>_ _ u. (PDict [(''x'', PInt 1)], u)))"

text \<open>A topic \<open>1\<close> that is registered as its own subscriber.\<close>

definition self_cycle_world :: "unit world" where
  "self_cycle_world =
     empty_world\<lparr>subs := (subs empty_world)(1 := add_subscriber 1 (constant_topic ''a''))\<rparr>"

definition one_topic_scheduler :: scheduler where
  "one_topic_scheduler = add_topics [1] (Scheduler_init False None)"

text \<open>Two topics \<open>1\<close> and \<open>2\<close> with the name \<^verbatim>\<open>a\<close>, and a subscriber \<open>3\<close> named \<^verbatim>\<open>motor\<close>
  whose \<^verbatim>\<open>initialize_hardware\<close> returns false.\<close>

definition collision_world :: "unit world" where
  "collision_world =
     empty_world\<lparr>subs := (subs empty_world)
       (1 := constant_topic ''a'', 2 := constant_topic ''a'',
        3 := (plain_subscriber ''motor'')\<lparr>initialize_hardware_user := (\<lambda>_. False)\<rparr>,
        4 := plain_subscriber ''arm'')\<rparr>"

definition collision_scheduler :: scheduler where
  "collision_scheduler = add_subscribers [3] (add_topics [1, 2] (Scheduler_init False None))"

definition collision_scheduler_ok :: scheduler where
  "collision_scheduler_ok = add_subscribers [4] (add_topics [1, 2] (Scheduler_init False None))"

text \<open>
  A \<^verbatim>\<open>SystemTimeTopic\<close> \<open>5\<close> constructed at clock reading \<open>5000\<close>, and command \<open>0\<close>, a
  \<^verbatim>\<open>DelayCommand(2.0, timer)\<close> whose \<^verbatim>\<open>first_run()\<close> has captured the reading \<open>5000\<close>. The
  clock goes on from \<open>5003\<close>, three seconds per reading.
\<close>

definition timer_world :: "unit world" where
  "timer_world =
     empty_world\<lparr>subs := (subs empty_world)
                      (5 := SystemTimeTopic_init ''SystemTime'' False 5000 5000 5000 5000),
                  cmds := (cmds empty_world)
                      (0 := (DelayCommand_init 2 5)\<lparr>kind := DelayCommand (Some 5000) 2 5,
                                                   first_run_occurred := True\<rparr>),
                  clock := (\<lambda>n. 5003 + 3 * real n)\<rparr>"

text \<open>A scheduler in live mode with the timer as its one topic, after \<^verbatim>\<open>initialize()\<close> has
  opened the log file.\<close>

definition live_timer_scheduler :: scheduler where
  "live_timer_scheduler =
     (add_topics [5] (Scheduler_init False None))\<lparr>writing_file_name := Some (LogCsv 5000)\<rparr>"

text \<open>A scheduler in simulation mode with the timer as its one topic, after \<^verbatim>\<open>initialize()\<close>
  has read a log with one tick, recorded at time \<open>103\<close>, three seconds after the recording
  began.\<close>

definition replay_timer_scheduler :: scheduler where
  "replay_timer_scheduler =
     (add_topics [5] (Scheduler_init True (Some (UserPath ''log_100.csv''))))
       \<lparr>time_stamps := Some [103],
        read_topics := Some [(103, [(''SystemTime'',
                         time_payload \<lparr>Unix = 103, DeltaTimeSeconds = 3\<rparr>, 103, 3)])]\<rparr>"










text \<open>Command \<open>0\<close> is a \<^verbatim>\<open>DynamicCommand\<close> with the options (callable \<open>10\<close>, command \<open>1\<close>)
  and (callable \<open>11\<close>, command \<open>2\<close>), registered in this order; both callables return
  true. The two worlds after it are what one and two calls of \<^verbatim>\<open>is_complete()\<close> leave.\<close>

definition two_options_world :: "unit world" where
  "two_options_world =
     empty_world\<lparr>cmds := (\<lambda>_. idle_command)
                      (0 := setNextOption (PCommand 2) 11
                              (setNextOption (PCommand 1) 10 (DynamicCommand_init id id))),
                  callables := (\<lambda>_ _. False)(10 := (\<lambda>_. True), 11 := (\<lambda>_. True))\<rparr>"

definition two_options_once :: "unit world" where
  "two_options_once =
     update_cmd 0 (set_next_command 1) (two_options_world\<lparr>trace := [ConditionCall 10]\<rparr>)"

definition two_options_twice :: "unit world" where
  "two_options_twice =
     update_cmd 1 (set_next_command 1)
       (two_options_once\<lparr>trace := [ConditionCall 10, ConditionCall 10]\<rparr>)"

section \<open>Properties\<close>

subsection \<open>Message\<close>

text \<open>
  Claim C9, as amended. Constructing \<^verbatim>\<open>Message(p)\<close> fails with a type error if and only if the
  type of \<open>p\<close> is not exactly \<^verbatim>\<open>dict\<close>; when the type of \<open>p\<close> is \<^verbatim>\<open>dict\<close>, the construction
  succeeds and the message holds \<open>p\<close> and the clock reading taken at construction.
\<close>

theorem Message_type_check:
  "(Message now p = Inl (TypeError ''Message must be a dictionary'')) = (type_of p \<noteq> TDict)
   \<and> (Message now p = Inr \<lparr>message = p, time_stamp = now\<rparr>) = (type_of p = TDict)
   \<and> (type_of p = TDict) = (\<exists>d. p = PDict d)
   \<and> (\<exists>e. Message now p = Inl e) = (type_of p \<noteq> TDict)"
  by (cases p) (simp_all add: Message_def)

text \<open>
  The claim as stated (the construction fails if and only if \<open>p\<close> is not a mapping) fails
  for a mapping whose type is not \<^verbatim>\<open>dict\<close>: \<^verbatim>\<open>Message(OrderedDict())\<close> raises the type error,
  since the test is \<^verbatim>\<open>type(message) != dict\<close>.
\<close>

theorem Message_mapping_counterexample:
  "is_mapping (PDictSubclass ''OrderedDict'' [])
   \<and> Message 0 (PDictSubclass ''OrderedDict'' []) = Inl (TypeError ''Message must be a dictionary'')"
  by (simp add: Message_def)

subsection \<open>The successor chain\<close>

lemma last_command_loop_tail: "tail_of h a t \<Longrightarrow> last_command_loop h a = Some (Inr t)"
  by (induction rule: tail_of.induct) (simp_all add: last_command_loop.simps)

lemma last_command_loop_self: 
  assumes "next_command (h a) = Some (Ref a)"
  shows "last_command_loop h a = None"
proof (cases "last_command_loop h a")
  case None
  then show ?thesis .
next
  case (Some y)
  have "\<not> (h = h \<and> a = a)"
  proof (rule last_command_loop.raw_induct [where P = "\<lambda>h' b y. \<not> (h' = h \<and> b = a)", OF _ Some])
    fix lcl h' b y
    assume IH: "\<And>h'' c z. lcl h'' c = Some z \<Longrightarrow> \<not> (h'' = h \<and> c = a)"
      and step: "(case next_command (h' b) of
          None \<Rightarrow> Some (Inl (AttributeError ''next_command''))
        | Some PyNone \<Rightarrow> Some (Inr b)
        | Some (Ref n) \<Rightarrow> lcl h' n) = Some y"
    show "\<not> (h' = h \<and> b = a)"
    proof
      assume "h' = h \<and> b = a"
      with step assms have "lcl h a = Some y" by simp
      with IH show False by blast
    qed
  qed
  then show ?thesis by simp
qed

lemma last_command_loop_returns:
  assumes "last_command_loop h a = Some r"
  shows "\<forall>t. r = Inr t \<longrightarrow> tail_of h a t"
proof (rule last_command_loop.raw_induct
    [where P = "\<lambda>h a r. \<forall>t. r = Inr t \<longrightarrow> tail_of h a t", OF _ assms])
  fix lcl h' b y
  assume IH: "\<And>h'' c z. lcl h'' c = Some z \<Longrightarrow> \<forall>t. z = Inr t \<longrightarrow> tail_of h'' c t"
    and step: "(case next_command (h' b) of
          None \<Rightarrow> Some (Inl (AttributeError ''next_command''))
        | Some PyNone \<Rightarrow> Some (Inr b)
        | Some (Ref n) \<Rightarrow> lcl h' n) = Some y"
  show "\<forall>t. y = Inr t \<longrightarrow> tail_of h' b t"
    using step IH
    by (auto split: option.splits ref.splits intro: tail_of.intros)
qed

lemma last_command_loop_returns_tail:
  "last_command_loop h a = Some (Inr t) \<Longrightarrow> tail_of h a t"
  using last_command_loop_returns by blast

lemma tail_of_no_successor: "tail_of h a t \<Longrightarrow> next_command (h t) = Some PyNone"
  by (induction rule: tail_of.induct) simp_all

lemma setNext_keeps_links:
  assumes "setNext w c v = Some (Inr w')" and "next_command (cmds w a) = Some (Ref r)"
  shows "next_command (cmds w' a) = Some (Ref r)"
proof -
  from assms(1) obtain n where v: "v = PCommand n"
    by (cases v) (simp_all add: setNext_def)
  show ?thesis
  proof (cases "next_command (cmds w c)")
    case None
    with assms(1) v show ?thesis by (simp add: setNext_def)
  next
    case (Some nx)
    show ?thesis
    proof (cases nx)
      case PyNone
      with Some assms v show ?thesis
        by (auto simp: setNext_def update_cmd_def set_next_command_def)
    next
      case (Ref f)
      with Some assms(1) v obtain t where t: "last_command_loop (cmds w) f = Some (Inr t)"
        and w': "w' = update_cmd t (set_next_command n) w"
        by (auto simp: setNext_def split: option.splits sum.splits)
      from t have "next_command (cmds w t) = Some PyNone"
        by (blast dest: last_command_loop_returns_tail tail_of_no_successor)
      with assms(2) w' show ?thesis
        by (auto simp: update_cmd_def set_next_command_def)
    qed
  qed
qed

lemma last_command_loop_error:
  assumes "last_command_loop h a = Some r"
  shows "\<forall>e. r = Inl e \<longrightarrow> lacks_next_command h a"
proof (rule last_command_loop.raw_induct
    [where P = "\<lambda>h a r. \<forall>e. r = Inl e \<longrightarrow> lacks_next_command h a", OF _ assms])
  fix lcl h' b y
  assume IH: "\<And>h'' c z. lcl h'' c = Some z \<Longrightarrow> \<forall>e. z = Inl e \<longrightarrow> lacks_next_command h'' c"
    and step: "(case next_command (h' b) of
          None \<Rightarrow> Some (Inl (AttributeError ''next_command''))
        | Some PyNone \<Rightarrow> Some (Inr b)
        | Some (Ref n) \<Rightarrow> lcl h' n) = Some y"
  show "\<forall>e. y = Inl e \<longrightarrow> lacks_next_command h' b"
    using step IH
    by (auto split: option.splits ref.splits intro: lacks_next_command.intros)
qed

lemma last_command_loop_no_tail:
  assumes "\<nexists>t. tail_of h a t" and "\<not> lacks_next_command h a"
  shows "last_command_loop h a = None"
proof (cases "last_command_loop h a")
  case None
  then show ?thesis .
next
  case (Some r)
  show ?thesis
  proof (cases r)
    case (Inl e)
    with Some assms(2) show ?thesis using last_command_loop_error by blast
  next
    case (Inr t)
    with Some assms(1) show ?thesis using last_command_loop_returns_tail by blast
  qed
qed

lemma chain_tail: "chain h a xs \<Longrightarrow> xs \<noteq> [] \<and> hd xs = a \<and> tail_of h a (last xs)"
  by (induction rule: chain.induct) (auto intro: tail_of.intros)

lemma setNext_chain:
  assumes "chain (cmds w) c xs"
  shows "setNext w c (PCommand n) = Some (Inr (update_cmd (last xs) (set_next_command n) w))"
  using assms
proof (cases rule: chain.cases)
  case chain_end
  then show ?thesis by (simp add: setNext_def)
next
  case (chain_step f ys)
  from chain_tail [OF chain_step(3)] have "last_command_loop (cmds w) f = Some (Inr (last ys))"
    and "ys \<noteq> []"
    by (auto intro: last_command_loop_tail)
  with chain_step show ?thesis by (simp add: setNext_def)
qed

lemma chain_extend:
  assumes "chain h a xs" and "n \<notin> set xs" and "next_command (h n) = Some PyNone"
  shows "chain (h(last xs := set_next_command n (h (last xs)))) a (xs @ [n])"
  using assms
proof (induction rule: chain.induct)
  case (chain_end h a)
  then have "n \<noteq> a" by simp
  with chain_end show ?case
    by (auto simp: set_next_command_def intro!: chain.intros)
next
  case (chain_step h a m xs)
  from chain_tail [OF chain_step(2)] have ne: "xs \<noteq> []" and t: "tail_of h m (last xs)"
    by simp_all
  from t have "next_command (h (last xs)) = Some PyNone"
    by (rule tail_of_no_successor)
  with chain_step(1) have "a \<noteq> last xs" by auto
  with chain_step ne show ?case
    by (auto intro!: chain.chain_step)
qed

lemma cyclic_world_no_tail: "\<nexists>t. tail_of (cmds cyclic_world) 1 t"
proof
  assume "\<exists>t. tail_of (cmds cyclic_world) 1 t"
  then obtain t where "tail_of (cmds cyclic_world) 1 t" ..
  then have "last_command_loop (cmds cyclic_world) 1 = Some (Inr t)"
    by (rule last_command_loop_tail)
  moreover have "last_command_loop (cmds cyclic_world) 1 = None"
    by (rule last_command_loop_self) (simp add: cyclic_world_def)
  ultimately show False by simp
qed

lemma self_loop_carries_attribute:
  assumes "next_command (h a) = Some (Ref a)"
  shows "\<not> lacks_next_command h a"
proof
  assume "lacks_next_command h a"
  then show False using assms
    by (induction rule: lacks_next_command.induct) auto
qed

text \<open>
  Claim C8, as amended. For every command \<open>c\<close>: \<^verbatim>\<open>setNext(next)\<close> raises a type error when
  \<open>next\<close> is not a command. For a command \<open>next\<close>: when \<open>c\<close> has no successor (its
  \<^verbatim>\<open>next_command\<close> is \<^verbatim>\<open>None\<close>), the call installs \<open>next\<close> as the successor of \<open>c\<close>; when \<open>c\<close> has a successor whose chain ends in
  a tail \<open>t\<close> (a command whose \<^verbatim>\<open>next_command\<close> is \<^verbatim>\<open>None\<close>), it appends \<open>next\<close> at \<open>t\<close>; when
  \<open>c\<close> has a successor whose chain has no tail and reaches no command that lacks the
  attribute \<^verbatim>\<open>next_command\<close> (a cycle), the call does not return. Whenever the call returns,
  every link that existed before still exists, so an existing link is never overwritten. And
  a call with a command that is not on the chain of \<open>c\<close> and has no successor of its own
  extends the chain of \<open>c\<close> by this command at its end, so that such calls build a sequence.
\<close>

theorem setNext_builds_sequence:
  "(type_of v \<noteq> TCommand \<longrightarrow>
      setNext w c v = Some (Inl (TypeError ''next_command must be an instance of Command'')))
   \<and> (next_command (cmds w c) = Some PyNone \<longrightarrow>
      setNext w c (PCommand n) = Some (Inr (update_cmd c (set_next_command n) w)))
   \<and> (next_command (cmds w c) = Some (Ref f) \<and> tail_of (cmds w) f t \<longrightarrow>
      setNext w c (PCommand n) = Some (Inr (update_cmd t (set_next_command n) w)))
   \<and> (next_command (cmds w c) = Some (Ref f) \<and> (\<nexists>t. tail_of (cmds w) f t) \<and>
        \<not> lacks_next_command (cmds w) f \<longrightarrow>
      setNext w c (PCommand n) = None)
   \<and> (setNext w c v = Some (Inr w') \<and> next_command (cmds w a) = Some (Ref r) \<longrightarrow>
      next_command (cmds w' a) = Some (Ref r))
   \<and> (chain (cmds w) c xs \<and> n \<notin> set xs \<and> next_command (cmds w n) = Some PyNone \<longrightarrow>
      (\<exists>w''. setNext w c (PCommand n) = Some (Inr w'') \<and> chain (cmds w'') c (xs @ [n])))"
proof (intro conjI impI)
  assume "type_of v \<noteq> TCommand"
  then show "setNext w c v = Some (Inl (TypeError ''next_command must be an instance of Command''))"
    by (cases v) (simp_all add: setNext_def)
next
  assume "next_command (cmds w c) = Some PyNone"
  then show "setNext w c (PCommand n) = Some (Inr (update_cmd c (set_next_command n) w))"
    by (simp add: setNext_def)
next
  assume "next_command (cmds w c) = Some (Ref f) \<and> tail_of (cmds w) f t"
  then show "setNext w c (PCommand n) = Some (Inr (update_cmd t (set_next_command n) w))"
    by (auto simp: setNext_def dest: last_command_loop_tail)
next
  assume a: "next_command (cmds w c) = Some (Ref f) \<and> (\<nexists>t. tail_of (cmds w) f t) \<and>
        \<not> lacks_next_command (cmds w) f"
  then have "last_command_loop (cmds w) f = None"
    by (intro last_command_loop_no_tail) simp_all
  with a show "setNext w c (PCommand n) = None"
    by (simp add: setNext_def)
next
  assume "setNext w c v = Some (Inr w') \<and> next_command (cmds w a) = Some (Ref r)"
  then show "next_command (cmds w' a) = Some (Ref r)"
    by (blast intro: setNext_keeps_links)
next
  assume a: "chain (cmds w) c xs \<and> n \<notin> set xs \<and> next_command (cmds w n) = Some PyNone"
  then have s: "setNext w c (PCommand n) = Some (Inr (update_cmd (last xs) (set_next_command n) w))"
    by (intro setNext_chain) simp
  from a have "chain ((cmds w)(last xs := set_next_command n (cmds w (last xs)))) c (xs @ [n])"
    by (intro chain_extend) simp_all
  then have "chain (cmds (update_cmd (last xs) (set_next_command n) w)) c (xs @ [n])"
    by (simp add: update_cmd_def)
  with s show "\<exists>w''. setNext w c (PCommand n) = Some (Inr w'') \<and> chain (cmds w'') c (xs @ [n])"
    by blast
qed

theorem setNext_builds_sequence_witness:
  "setNext chain_world 0 PNone = Some (Inl (TypeError ''next_command must be an instance of Command''))
   \<and> setNext chain_world 2 (PCommand 3) = Some (Inr (update_cmd 2 (set_next_command 3) chain_world))
   \<and> setNext chain_world 0 (PCommand 3) = Some (Inr (update_cmd 2 (set_next_command 3) chain_world))
   \<and> setNext cyclic_world 0 (PCommand 3) = None
   \<and> next_command (cmds (update_cmd 2 (set_next_command 3) chain_world) 0) = Some (Ref 1)
   \<and> next_command (cmds (update_cmd 2 (set_next_command 3) chain_world) 2) = Some (Ref 3)
   \<and> chain (cmds chain_world) 0 [0, 1, 2]
   \<and> (\<exists>w''. setNext chain_world 0 (PCommand 3) = Some (Inr w'') \<and> chain (cmds w'') 0 [0, 1, 2, 3])"
proof -
  have n0: "next_command (cmds chain_world 0) = Some (Ref 1)"
    and n1: "next_command (cmds chain_world 1) = Some (Ref 2)"
    and n2: "next_command (cmds chain_world 2) = Some PyNone"
    and n3: "next_command (cmds chain_world 3) = Some PyNone"
    by (simp_all add: chain_world_def idle_command_def Command_init_def)
  have t: "tail_of (cmds chain_world) 1 2"
    using n1 n2 by (blast intro: tail_of.intros)
  have ch: "chain (cmds chain_world) 0 [0, 1, 2]"
    using n0 n1 n2 by (blast intro: chain.intros)
  have c0: "next_command (cmds cyclic_world 0) = Some (Ref 1)"
    and c1: "next_command (cmds cyclic_world 1) = Some (Ref 1)"
    by (simp_all add: cyclic_world_def)
  have a: "setNext chain_world 0 PNone = Some (Inl (TypeError ''next_command must be an instance of Command''))"
    using setNext_builds_sequence [where v = PNone and w = chain_world and c = 0] by simp
  have b: "setNext chain_world 2 (PCommand 3) = Some (Inr (update_cmd 2 (set_next_command 3) chain_world))"
    using setNext_builds_sequence [where w = chain_world and c = 2 and n = 3] n2 by blast
  have c: "setNext chain_world 0 (PCommand 3) = Some (Inr (update_cmd 2 (set_next_command 3) chain_world))"
    using setNext_builds_sequence [where w = chain_world and c = 0 and n = 3 and f = 1 and t = 2] n0 t
    by blast
  have d: "setNext cyclic_world 0 (PCommand 3) = None"
    using setNext_builds_sequence [where w = cyclic_world and c = 0 and n = 3 and f = 1]
      c0 cyclic_world_no_tail
      self_loop_carries_attribute [where h = "cmds cyclic_world" and a = 1, OF c1]
    by blast
  have e: "next_command (cmds (update_cmd 2 (set_next_command 3) chain_world) 0) = Some (Ref 1)"
    using setNext_builds_sequence [where v = "PCommand 3" and w = chain_world and c = 0
        and w' = "update_cmd 2 (set_next_command 3) chain_world" and a = 0 and r = 1] c n0
    by blast
  have f: "next_command (cmds (update_cmd 2 (set_next_command 3) chain_world) 2) = Some (Ref 3)"
    by (simp add: update_cmd_def set_next_command_def)
  have g: "\<exists>w''. setNext chain_world 0 (PCommand 3) = Some (Inr w'') \<and> chain (cmds w'') 0 [0, 1, 2, 3]"
  proof -
    have "chain (cmds chain_world) 0 [0, 1, 2] \<and> 3 \<notin> set [0, 1, 2::nat] \<and>
        next_command (cmds chain_world 3) = Some PyNone \<longrightarrow>
        (\<exists>w''. setNext chain_world 0 (PCommand 3) = Some (Inr w'') \<and>
           chain (cmds w'') 0 ([0, 1, 2] @ [3]))"
      using setNext_builds_sequence [where w = chain_world and c = 0 and n = 3 and xs = "[0, 1, 2]"
          and v = PNone and f = 0 and t = 0 and w' = chain_world and a = 0 and r = 0]
      by (elim conjE)
    with ch n3 show ?thesis by simp
  qed
  from a b c d e f ch g show ?thesis by blast
qed

text \<open>
  The claim as stated (for every command, the call walks to the tail and appends there) fails
  on a chain that has no tail: with \<open>0 \<rightarrow> 1 \<rightarrow> 1\<close> the loop of \<^verbatim>\<open>setNext\<close> never finds a command
  without successor, the call does not return and nothing is appended.
\<close>

theorem setNext_cyclic_chain_counterexample:
  "next_command (cmds cyclic_world 0) = Some (Ref 1)
   \<and> next_command (cmds cyclic_world 1) = Some (Ref 1)
   \<and> setNext cyclic_world 0 (PCommand 2) = None"
proof -
  have n0: "next_command (cmds cyclic_world 0) = Some (Ref 1)"
    and n1: "next_command (cmds cyclic_world 1) = Some (Ref 1)"
    by (simp_all add: cyclic_world_def)
  from n1 have "last_command_loop (cmds cyclic_world) 1 = None"
    by (rule last_command_loop_self)
  with n0 n1 show ?thesis by (simp add: setNext_def)
qed

subsection \<open>\<^verbatim>\<open>DynamicCommand.is_complete\<close>\<close>

lemma dynamic_is_complete_none:
  "\<forall>x\<in>set conds. \<not> callables w x (user w) \<Longrightarrow>
   dynamic_is_complete w self pairs conds =
     Some (Inr (False, w\<lparr>trace := trace w @ map ConditionCall conds\<rparr>))"
proof (induction conds arbitrary: w)
  case Nil
  then show ?case by simp
next
  case (Cons c conds)
  have "dynamic_is_complete (log_event (ConditionCall c) w) self pairs conds =
      Some (Inr (False, (log_event (ConditionCall c) w)
        \<lparr>trace := trace (log_event (ConditionCall c) w) @ map ConditionCall conds\<rparr>))"
    using Cons.prems by (intro Cons.IH) (simp add: log_event_def)
  with Cons.prems show ?case by (simp add: log_event_def)
qed

lemma dynamic_is_complete_first:
  "\<forall>x\<in>set pre. \<not> callables w x (user w) \<Longrightarrow> callables w c (user w) \<Longrightarrow>
   dynamic_is_complete w self pairs (pre @ c # post) =
     (case pairs c of
        None \<Rightarrow> Some (Inl (KeyError ''command_condition_pairs''))
      | Some v \<Rightarrow>
          (case setNext (w\<lparr>trace := trace w @ map ConditionCall (pre @ [c])\<rparr>) self v of
             None \<Rightarrow> None
           | Some (Inl e) \<Rightarrow> Some (Inl e)
           | Some (Inr w2) \<Rightarrow> Some (Inr (True, w2))))"
proof (induction pre arbitrary: w)
  case Nil
  then show ?case by (simp add: log_event_def split: option.split)
next
  case (Cons a pre)
  have "dynamic_is_complete (log_event (ConditionCall a) w) self pairs (pre @ c # post) =
     (case pairs c of
        None \<Rightarrow> Some (Inl (KeyError ''command_condition_pairs''))
      | Some v \<Rightarrow>
          (case setNext ((log_event (ConditionCall a) w)
                  \<lparr>trace := trace (log_event (ConditionCall a) w) @ map ConditionCall (pre @ [c])\<rparr>) self v of
             None \<Rightarrow> None
           | Some (Inl e) \<Rightarrow> Some (Inl e)
           | Some (Inr w2) \<Rightarrow> Some (Inr (True, w2))))"
    using Cons.prems by (intro Cons.IH) (simp_all add: log_event_def)
  with Cons.prems show ?case by (simp add: log_event_def split: option.split)
qed

lemma setNext_trace: "setNext w c v = Some (Inr w') \<Longrightarrow> trace w' = trace w"
  by (cases v) (auto simp: setNext_def update_cmd_def split: option.splits ref.splits sum.splits)

lemma setNext_user: "setNext w c v = Some (Inr w') \<Longrightarrow> user w' = user w \<and> callables w' = callables w \<and> subs w' = subs w"
  by (cases v) (auto simp: setNext_def update_cmd_def split: option.splits ref.splits sum.splits)


lemma registered_init: "registered [] (DynamicCommand_init fr per)"
  by (simp add: registered_def DynamicCommand_init_def Command_init_def)

lemma registered_setNextOption:
  "registered regs c \<Longrightarrow> registered (regs @ [(p, s)]) (setNextOption s p c)"
  by (auto simp: registered_def setNextOption_def)

lemma registered_next_command [simp]:
  "registered regs (c\<lparr>next_command := x\<rparr>) = registered regs c"
  by (simp add: registered_def)

lemma map_of_rev_registered:
  "map_of (rev (pre @ (p, s) # post)) p = (case map_of (rev post) p of None \<Rightarrow> Some s | Some v \<Rightarrow> Some v)"
  by (simp add: map_add_def split: option.split)

lemma registered_dynamic_world: "registered [(10, PCommand 1)] (cmds dynamic_world 0)"
proof -
  have "registered ([] @ [(10, PCommand 1)]) (setNextOption (PCommand 1) 10 (DynamicCommand_init id id :: unit command))"
    by (intro registered_setNextOption registered_init)
  then show ?thesis by (simp add: dynamic_world_def)
qed

lemma registered_twice_world:
  "registered [(10, PCommand 1), (10, PCommand 2)] (cmds twice_world 0)"
proof -
  have "registered ([] @ [(10, PCommand 1)]) (setNextOption (PCommand 1) 10 (DynamicCommand_init id id :: unit command))"
    by (intro registered_setNextOption registered_init)
  then have "registered ([(10, PCommand 1)] @ [(10, PCommand 2)])
      (setNextOption (PCommand 2) 10 (setNextOption (PCommand 1) 10 (DynamicCommand_init id id :: unit command)))"
    by (intro registered_setNextOption) simp
  then show ?thesis by (simp add: twice_world_def)
qed

text \<open>
  Claim C3, as amended. For every \<^verbatim>\<open>DynamicCommand\<close> \<open>d\<close> whose options \<open>regs\<close> were
  registered with \<^verbatim>\<open>setNextOption\<close>: \<^verbatim>\<open>is_complete()\<close> calls the predicates in registration
  order (the trace). If none holds, it returns false and changes nothing else. If \<open>p\<close> is
  the first that holds, no later predicate is called, and the value that the dictionary
  holds for \<open>p\<close> (the one registered with \<open>p\<close> last; the successor of that pair when \<open>p\<close>
  was not registered again later) is handed to \<^verbatim>\<open>setNext\<close>. When that value is a command
  \<open>n\<close>: if \<open>d\<close> has no successor, \<open>n\<close> becomes the next link of \<open>d\<close> and the call
  returns true; if \<open>d\<close> has a successor whose chain ends in a tail \<open>t\<close>, \<open>n\<close> is appended
  at \<open>t\<close> and the call returns true; if \<open>d\<close> has a successor whose chain has no tail and
  reaches no command that lacks the attribute \<^verbatim>\<open>next_command\<close> (a cycle), the call does not
  return.
\<close>

theorem dynamic_is_complete_first_match:
  assumes "registered regs (cmds w d)"
  shows
    "((\<forall>x\<in>set regs. \<not> callables w (fst x) (user w)) \<longrightarrow>
        is_complete (Suc k) w d =
          Some (Inr (False, w\<lparr>trace := trace w @ map ConditionCall (map fst regs)\<rparr>)))
     \<and> (regs = pre @ (p, s) # post \<and> (\<forall>x\<in>set pre. \<not> callables w (fst x) (user w)) \<and>
        callables w p (user w) \<and> map_of (rev regs) p = Some (PCommand n) \<and>
        next_command (cmds w d) = Some PyNone \<longrightarrow>
          is_complete (Suc k) w d =
            Some (Inr (True, update_cmd d (set_next_command n)
              (w\<lparr>trace := trace w @ map ConditionCall (map fst pre @ [p])\<rparr>))))
     \<and> (regs = pre @ (p, s) # post \<and> (\<forall>x\<in>set pre. \<not> callables w (fst x) (user w)) \<and>
        callables w p (user w) \<and> map_of (rev regs) p = Some (PCommand n) \<and>
        next_command (cmds w d) = Some (Ref f) \<and> tail_of (cmds w) f t \<longrightarrow>
          is_complete (Suc k) w d =
            Some (Inr (True, update_cmd t (set_next_command n)
              (w\<lparr>trace := trace w @ map ConditionCall (map fst pre @ [p])\<rparr>))))
     \<and> (regs = pre @ (p, s) # post \<and> (\<forall>x\<in>set pre. \<not> callables w (fst x) (user w)) \<and>
        callables w p (user w) \<and> map_of (rev regs) p = Some (PCommand n) \<and>
        next_command (cmds w d) = Some (Ref f) \<and> (\<nexists>t. tail_of (cmds w) f t) \<and>
        \<not> lacks_next_command (cmds w) f \<longrightarrow>
          is_complete (Suc k) w d = None)
     \<and> (regs = pre @ (p, s) # post \<longrightarrow>
          (\<exists>v. map_of (rev regs) p = Some v) \<and>
          (p \<notin> fst ` set post \<longrightarrow> map_of (rev regs) p = Some s))"
proof -
  from assms obtain fr per where
    k: "kind (cmds w d) = DynamicCommand fr per (map fst regs) (map_of (rev regs))"
    by (auto simp: registered_def)
  have none: "(\<forall>x\<in>set regs. \<not> callables w (fst x) (user w)) \<longrightarrow>
        is_complete (Suc k) w d =
          Some (Inr (False, w\<lparr>trace := trace w @ map ConditionCall (map fst regs)\<rparr>))"
    using k by (simp add: dynamic_is_complete_none)
  have first: "is_complete (Suc k) w d =
      (case setNext (w\<lparr>trace := trace w @ map ConditionCall (map fst pre @ [p])\<rparr>) d (PCommand n) of
         None \<Rightarrow> None
       | Some (Inl e) \<Rightarrow> Some (Inl e)
       | Some (Inr w2) \<Rightarrow> Some (Inr (True, w2)))"
    if "regs = pre @ (p, s) # post" "\<forall>x\<in>set pre. \<not> callables w (fst x) (user w)"
      "callables w p (user w)" "map_of (rev regs) p = Some (PCommand n)"
  proof -
    have "dynamic_is_complete w d (map_of (rev regs)) (map fst pre @ p # map fst post) =
      (case map_of (rev regs) p of
        None \<Rightarrow> Some (Inl (KeyError ''command_condition_pairs''))
      | Some v \<Rightarrow>
          (case setNext (w\<lparr>trace := trace w @ map ConditionCall (map fst pre @ [p])\<rparr>) d v of
             None \<Rightarrow> None
           | Some (Inl e) \<Rightarrow> Some (Inl e)
           | Some (Inr w2) \<Rightarrow> Some (Inr (True, w2))))"
      using that(2,3) by (intro dynamic_is_complete_first) simp_all
    with k that(1,4) show ?thesis by simp
  qed
  have fresh: "regs = pre @ (p, s) # post \<and> (\<forall>x\<in>set pre. \<not> callables w (fst x) (user w)) \<and>
        callables w p (user w) \<and> map_of (rev regs) p = Some (PCommand n) \<and>
        next_command (cmds w d) = Some PyNone \<longrightarrow>
          is_complete (Suc k) w d =
            Some (Inr (True, update_cmd d (set_next_command n)
              (w\<lparr>trace := trace w @ map ConditionCall (map fst pre @ [p])\<rparr>)))"
  proof (intro impI, elim conjE)
    assume h: "regs = pre @ (p, s) # post" "\<forall>x\<in>set pre. \<not> callables w (fst x) (user w)"
      "callables w p (user w)" "map_of (rev regs) p = Some (PCommand n)"
      and nx: "next_command (cmds w d) = Some PyNone"
    from nx have "setNext (w\<lparr>trace := trace w @ map ConditionCall (map fst pre @ [p])\<rparr>) d (PCommand n) =
        Some (Inr (update_cmd d (set_next_command n)
              (w\<lparr>trace := trace w @ map ConditionCall (map fst pre @ [p])\<rparr>)))"
      by (simp add: setNext_def)
    with first [OF h] show "is_complete (Suc k) w d =
            Some (Inr (True, update_cmd d (set_next_command n)
              (w\<lparr>trace := trace w @ map ConditionCall (map fst pre @ [p])\<rparr>)))"
      by simp
  qed
  have chain: "regs = pre @ (p, s) # post \<and> (\<forall>x\<in>set pre. \<not> callables w (fst x) (user w)) \<and>
        callables w p (user w) \<and> map_of (rev regs) p = Some (PCommand n) \<and>
        next_command (cmds w d) = Some (Ref f) \<and> tail_of (cmds w) f t \<longrightarrow>
          is_complete (Suc k) w d =
            Some (Inr (True, update_cmd t (set_next_command n)
              (w\<lparr>trace := trace w @ map ConditionCall (map fst pre @ [p])\<rparr>)))"
  proof (intro impI, elim conjE)
    assume h: "regs = pre @ (p, s) # post" "\<forall>x\<in>set pre. \<not> callables w (fst x) (user w)"
      "callables w p (user w)" "map_of (rev regs) p = Some (PCommand n)"
      and nx: "next_command (cmds w d) = Some (Ref f)" and tl: "tail_of (cmds w) f t"
    from tl have "last_command_loop (cmds w) f = Some (Inr t)"
      by (rule last_command_loop_tail)
    with nx have "setNext (w\<lparr>trace := trace w @ map ConditionCall (map fst pre @ [p])\<rparr>) d (PCommand n) =
        Some (Inr (update_cmd t (set_next_command n)
              (w\<lparr>trace := trace w @ map ConditionCall (map fst pre @ [p])\<rparr>)))"
      by (simp add: setNext_def)
    with first [OF h] show "is_complete (Suc k) w d =
            Some (Inr (True, update_cmd t (set_next_command n)
              (w\<lparr>trace := trace w @ map ConditionCall (map fst pre @ [p])\<rparr>)))"
      by simp
  qed
  have cyc: "regs = pre @ (p, s) # post \<and> (\<forall>x\<in>set pre. \<not> callables w (fst x) (user w)) \<and>
        callables w p (user w) \<and> map_of (rev regs) p = Some (PCommand n) \<and>
        next_command (cmds w d) = Some (Ref f) \<and> (\<nexists>t. tail_of (cmds w) f t) \<and>
        \<not> lacks_next_command (cmds w) f \<longrightarrow>
          is_complete (Suc k) w d = None"
  proof (intro impI, elim conjE)
    assume h: "regs = pre @ (p, s) # post" "\<forall>x\<in>set pre. \<not> callables w (fst x) (user w)"
      "callables w p (user w)" "map_of (rev regs) p = Some (PCommand n)"
      and nx: "next_command (cmds w d) = Some (Ref f)" and nt: "\<nexists>t. tail_of (cmds w) f t"
      and at: "\<not> lacks_next_command (cmds w) f"
    from nt at have "last_command_loop (cmds w) f = None"
      by (rule last_command_loop_no_tail)
    with nx have "setNext (w\<lparr>trace := trace w @ map ConditionCall (map fst pre @ [p])\<rparr>) d (PCommand n) =
        None"
      by (simp add: setNext_def)
    with first [OF h] show "is_complete (Suc k) w d = None"
      by simp
  qed
  have lookup: "regs = pre @ (p, s) # post \<longrightarrow>
          (\<exists>v. map_of (rev regs) p = Some v) \<and>
          (p \<notin> fst ` set post \<longrightarrow> map_of (rev regs) p = Some s)"
  proof
    assume r: "regs = pre @ (p, s) # post"
    have eq: "map_of (rev regs) p =
        (case map_of (rev post) p of None \<Rightarrow> Some s | Some v \<Rightarrow> Some v)"
      unfolding r by (rule map_of_rev_registered)
    have "map_of (rev post) p = None" if "p \<notin> fst ` set post"
      using that by (simp add: map_of_eq_None_iff)
    with eq show "(\<exists>v. map_of (rev regs) p = Some v) \<and>
          (p \<notin> fst ` set post \<longrightarrow> map_of (rev regs) p = Some s)"
      by (cases "map_of (rev post) p") auto
  qed
  from none fresh chain cyc lookup show ?thesis by blast
qed

theorem dynamic_is_complete_first_match_witness:
  "is_complete (Suc 0) dynamic_world 0 =
     Some (Inr (True, update_cmd 0 (set_next_command 1) (dynamic_world\<lparr>trace := [ConditionCall 10]\<rparr>)))
   \<and> is_complete (Suc 0) (dynamic_world\<lparr>callables := (\<lambda>_ _. False)\<rparr>) 0 =
     Some (Inr (False, dynamic_world\<lparr>callables := (\<lambda>_ _. False), trace := [ConditionCall 10]\<rparr>))
   \<and> is_complete (Suc 0) twice_world 0 =
     Some (Inr (True, update_cmd 3 (set_next_command 2) (twice_world\<lparr>trace := [ConditionCall 10]\<rparr>)))
   \<and> is_complete (Suc 0) dynamic_cyclic_world 0 = None
   \<and> map_of (rev [(10::nat, PCommand 1)]) 10 = Some (PCommand 1)"
proof -
  have rc: "registered [(10, PCommand 1)] (cmds dynamic_cyclic_world 0)"
    using registered_dynamic_world by (simp add: dynamic_cyclic_world_def)
  have cc: "callables dynamic_cyclic_world 10 (user dynamic_cyclic_world)"
    and nc0: "next_command (cmds dynamic_cyclic_world 0) = Some (Ref 1)"
    and nc1: "next_command (cmds dynamic_cyclic_world 1) = Some (Ref 1)"
    by (simp_all add: dynamic_cyclic_world_def dynamic_world_def empty_world_def)
  have nt: "\<nexists>t. tail_of (cmds dynamic_cyclic_world) 1 t"
  proof
    assume "\<exists>t. tail_of (cmds dynamic_cyclic_world) 1 t"
    then obtain t where "tail_of (cmds dynamic_cyclic_world) 1 t" ..
    then have "last_command_loop (cmds dynamic_cyclic_world) 1 = Some (Inr t)"
      by (rule last_command_loop_tail)
    moreover from nc1 have "last_command_loop (cmds dynamic_cyclic_world) 1 = None"
      by (rule last_command_loop_self)
    ultimately show False by simp
  qed
  have at: "\<not> lacks_next_command (cmds dynamic_cyclic_world) 1"
    using nc1 by (rule self_loop_carries_attribute)
  have cy: "is_complete (Suc 0) dynamic_cyclic_world 0 = None"
    using dynamic_is_complete_first_match [OF rc,
        where pre = "[]" and p = 10 and s = "PCommand 1" and post = "[]" and n = 1 and f = 1
          and k = 0]
      cc nc0 nt at by simp
  have c: "callables dynamic_world 10 (user dynamic_world)"
    and n: "next_command (cmds dynamic_world 0) = Some PyNone"
    and tr: "trace dynamic_world = []"
    by (simp_all add: dynamic_world_def empty_world_def setNextOption_def DynamicCommand_init_def
        Command_init_def)
  have a: "is_complete (Suc 0) dynamic_world 0 =
     Some (Inr (True, update_cmd 0 (set_next_command 1) (dynamic_world\<lparr>trace := [ConditionCall 10]\<rparr>)))"
    using dynamic_is_complete_first_match [OF registered_dynamic_world,
        where pre = "[]" and p = 10 and s = "PCommand 1" and post = "[]" and n = 1 and k = 0]
      c n tr by simp
  have r2: "registered [(10, PCommand 1)] (cmds (dynamic_world\<lparr>callables := (\<lambda>_ _. False)\<rparr>) 0)"
    using registered_dynamic_world by simp
  have b: "is_complete (Suc 0) (dynamic_world\<lparr>callables := (\<lambda>_ _. False)\<rparr>) 0 =
     Some (Inr (False, dynamic_world\<lparr>callables := (\<lambda>_ _. False), trace := [ConditionCall 10]\<rparr>))"
    using dynamic_is_complete_first_match [OF r2, where k = 0] tr by simp
  have c2: "callables twice_world 10 (user twice_world)"
    and n2: "next_command (cmds twice_world 0) = Some (Ref 3)"
    and n3: "next_command (cmds twice_world 3) = Some PyNone"
    and tr2: "trace twice_world = []"
    by (simp_all add: twice_world_def empty_world_def idle_command_def Command_init_def)
  from n3 have t: "tail_of (cmds twice_world) 3 3"
    by (rule tail_of.intros)
  have d: "is_complete (Suc 0) twice_world 0 =
     Some (Inr (True, update_cmd 3 (set_next_command 2) (twice_world\<lparr>trace := [ConditionCall 10]\<rparr>)))"
    using dynamic_is_complete_first_match [OF registered_twice_world,
        where pre = "[]" and p = 10 and s = "PCommand 1" and post = "[(10, PCommand 2)]"
          and n = 2 and f = 3 and t = 3 and k = 0]
      c2 n2 t tr2 by simp
  have e: "map_of (rev [(10::nat, PCommand 1)]) 10 = Some (PCommand 1)"
    using dynamic_is_complete_first_match [OF registered_dynamic_world,
        where pre = "[]" and p = 10 and s = "PCommand 1" and post = "[]"]
    by simp
  from a b d cy e show ?thesis by blast
qed

text \<open>
  The claim as stated (the successor of the first pair whose predicate holds is installed as
  the next link) fails where the command already has a successor, and where the predicate
  was registered again with another command: here \<open>d = 0\<close> has the successor \<open>3\<close>, and
  the callable \<open>10\<close> was registered with command \<open>1\<close> and then with command \<open>2\<close>. The
  first pair is \<open>(10, 1)\<close>; the call returns true, the next link of \<open>0\<close> is still \<open>3\<close>,
  and the command appended (behind \<open>3\<close>) is \<open>2\<close>.
\<close>

theorem dynamic_is_complete_counterexample:
  "registered [(10, PCommand 1), (10, PCommand 2)] (cmds twice_world 0)
   \<and> callables twice_world 10 (user twice_world)
   \<and> next_command (cmds twice_world 0) = Some (Ref 3)
   \<and> is_complete (Suc 0) twice_world 0 =
       Some (Inr (True, update_cmd 3 (set_next_command 2) (twice_world\<lparr>trace := [ConditionCall 10]\<rparr>)))
   \<and> next_command (cmds (update_cmd 3 (set_next_command 2) (twice_world\<lparr>trace := [ConditionCall 10]\<rparr>)) 0)
       = Some (Ref 3)
   \<and> next_command (cmds (update_cmd 3 (set_next_command 2) (twice_world\<lparr>trace := [ConditionCall 10]\<rparr>)) 3)
       = Some (Ref 2)"
proof -
  have n3: "next_command (cmds twice_world 3) = Some PyNone"
    by (simp add: twice_world_def idle_command_def Command_init_def)
  have l: "last_command_loop (cmds twice_world) 3 = Some (Inr 3)"
    using n3 by (subst last_command_loop.simps) simp
  have k: "kind (cmds twice_world 0) =
      DynamicCommand id id [10, 10] ((Map.empty(10 \<mapsto> PCommand 1))(10 \<mapsto> PCommand 2))"
    by (simp add: twice_world_def setNextOption_def DynamicCommand_init_def Command_init_def)
  have c: "callables twice_world 10 (user twice_world)"
    and n0: "next_command (cmds twice_world 0) = Some (Ref 3)"
    and tr: "trace twice_world = []"
    by (simp_all add: twice_world_def empty_world_def)
  have "is_complete (Suc 0) twice_world 0 =
       Some (Inr (True, update_cmd 3 (set_next_command 2) (twice_world\<lparr>trace := [ConditionCall 10]\<rparr>)))"
    using k c n0 l tr by (simp add: setNext_def log_event_def)
  moreover have "next_command (cmds (update_cmd 3 (set_next_command 2) (twice_world\<lparr>trace := [ConditionCall 10]\<rparr>)) 0)
       = Some (Ref 3)"
    using n0 by (simp add: update_cmd_def)
  moreover have "next_command (cmds (update_cmd 3 (set_next_command 2) (twice_world\<lparr>trace := [ConditionCall 10]\<rparr>)) 3)
       = Some (Ref 2)"
    by (simp add: update_cmd_def set_next_command_def)
  ultimately show ?thesis using registered_twice_world c n0 by blast
qed

text \<open>
  Claim C10, as amended. Let \<open>d\<close> be a \<^verbatim>\<open>DynamicCommand\<close> that has no successor, let \<open>p\<close> be
  the first of its predicates that returns true, and let the command registered with \<open>p\<close>
  be \<open>s\<close>, a command other than \<open>d\<close> that has no next command of its own. One call of
  \<^verbatim>\<open>d.is_complete()\<close> installs \<open>s\<close> as the successor of \<open>d\<close>; the predicate still holds, and
  a second call appends \<open>s\<close> at the tail of the chain of \<open>d\<close>, which is \<open>s\<close> itself: \<open>s\<close>
  becomes its own successor, the chain is cyclic, and a third call does not return.
\<close>

theorem dynamic_is_complete_twice_makes_cycle:
  assumes "kind (cmds w d) = DynamicCommand fr per (pre @ p # post) pairs"
    and "\<forall>x\<in>set pre. \<not> callables w x (user w)"
    and "callables w p (user w)"
    and "pairs p = Some (PCommand s)"
    and "next_command (cmds w d) = Some PyNone"
    and "next_command (cmds w s) = Some PyNone"
    and "s \<noteq> d"
  shows "\<exists>w1 w2. is_complete (Suc k) w d = Some (Inr (True, w1))
      \<and> next_command (cmds w1 d) = Some (Ref s) \<and> next_command (cmds w1 s) = Some PyNone
      \<and> callables w1 p (user w1)
      \<and> is_complete (Suc k) w1 d = Some (Inr (True, w2))
      \<and> next_command (cmds w2 d) = Some (Ref s) \<and> next_command (cmds w2 s) = Some (Ref s)
      \<and> is_complete (Suc k) w2 d = None"
proof -
  define t1 where "t1 = trace w @ map ConditionCall (pre @ [p])"
  define w1 where "w1 = update_cmd d (set_next_command s) (w\<lparr>trace := t1\<rparr>)"
  define t2 where "t2 = trace w1 @ map ConditionCall (pre @ [p])"
  define w2 where "w2 = update_cmd s (set_next_command s) (w1\<lparr>trace := t2\<rparr>)"
  define t3 where "t3 = trace w2 @ map ConditionCall (pre @ [p])"
  have s1: "setNext (w\<lparr>trace := t1\<rparr>) d (PCommand s) = Some (Inr w1)"
    using assms(5) by (simp add: setNext_def w1_def)
  have c1: "is_complete (Suc k) w d = Some (Inr (True, w1))"
    using assms(1) dynamic_is_complete_first [OF assms(2,3), of d pairs post] assms(4) s1
    by (simp add: t1_def)
  have k1: "kind (cmds w1 d) = DynamicCommand fr per (pre @ p # post) pairs"
    and u1: "user w1 = user w" and cb1: "callables w1 = callables w"
    and n1d: "next_command (cmds w1 d) = Some (Ref s)"
    and n1s: "next_command (cmds w1 s) = Some PyNone"
    using assms(1,6,7) by (simp_all add: w1_def update_cmd_def set_next_command_def)
  have l1: "last_command_loop (cmds w1) s = Some (Inr s)"
    using n1s by (subst last_command_loop.simps) simp
  have s2: "setNext (w1\<lparr>trace := t2\<rparr>) d (PCommand s) = Some (Inr w2)"
    using n1d l1 by (simp add: setNext_def w2_def)
  have p1: "\<forall>x\<in>set pre. \<not> callables w1 x (user w1)" "callables w1 p (user w1)"
    using assms(2,3) u1 cb1 by simp_all
  have c2: "is_complete (Suc k) w1 d = Some (Inr (True, w2))"
    using k1 dynamic_is_complete_first [OF p1, of d pairs post] assms(4) s2
    by (simp add: t2_def)
  have k2: "kind (cmds w2 d) = DynamicCommand fr per (pre @ p # post) pairs"
    and u2: "user w2 = user w1" and cb2: "callables w2 = callables w1"
    and n2d: "next_command (cmds w2 d) = Some (Ref s)"
    and n2s: "next_command (cmds w2 s) = Some (Ref s)"
    using k1 n1d assms(7) by (simp_all add: w2_def update_cmd_def set_next_command_def)
  have l2: "last_command_loop (cmds w2) s = None"
    using n2s by (rule last_command_loop_self)
  have s3: "setNext (w2\<lparr>trace := t3\<rparr>) d (PCommand s) = None"
    using n2d l2 by (simp add: setNext_def)
  have p2: "\<forall>x\<in>set pre. \<not> callables w2 x (user w2)" "callables w2 p (user w2)"
    using p1 u2 cb2 by simp_all
  have c3: "is_complete (Suc k) w2 d = None"
    using k2 dynamic_is_complete_first [OF p2, of d pairs post] assms(4) s3
    by (simp add: t3_def)
  from c1 n1d n1s p1(2) c2 n2d n2s c3 show ?thesis by blast
qed

theorem dynamic_is_complete_twice_makes_cycle_witness:
  "\<exists>w1 w2. is_complete (Suc 0) dynamic_world 0 = Some (Inr (True, w1))
      \<and> next_command (cmds w1 0) = Some (Ref 1) \<and> next_command (cmds w1 1) = Some PyNone
      \<and> callables w1 10 (user w1)
      \<and> is_complete (Suc 0) w1 0 = Some (Inr (True, w2))
      \<and> next_command (cmds w2 0) = Some (Ref 1) \<and> next_command (cmds w2 1) = Some (Ref 1)
      \<and> is_complete (Suc 0) w2 0 = None"
proof -
  have k: "kind (cmds dynamic_world 0) = DynamicCommand id id ([] @ 10 # []) (Map.empty(10 \<mapsto> PCommand 1))"
    by (simp add: dynamic_world_def setNextOption_def DynamicCommand_init_def Command_init_def)
  have c: "callables dynamic_world 10 (user dynamic_world)"
    and n0: "next_command (cmds dynamic_world 0) = Some PyNone"
    and n1: "next_command (cmds dynamic_world 1) = Some PyNone"
    by (simp_all add: dynamic_world_def setNextOption_def DynamicCommand_init_def
        Command_init_def idle_command_def)
  show ?thesis
    using dynamic_is_complete_twice_makes_cycle [OF k _ c _ n0 n1, where k = 0] by simp
qed

text \<open>
  The claim as stated (for every registered pair whose predicate returns true and whose
  successor \<open>s\<close> has no next command) fails when an earlier predicate returns true as well:
  with the options \<open>(10, 1)\<close> and \<open>(11, 2)\<close>, both true, the pair \<open>(11, 2)\<close> meets the
  claim's conditions, but the two calls install and then append command \<open>1\<close>; command \<open>2\<close>
  is never the successor of \<open>0\<close> and never its own successor.
\<close>

theorem dynamic_is_complete_other_option_counterexample:
  "kind (cmds two_options_world 0) =
     DynamicCommand id id [10, 11] [10 \<mapsto> PCommand 1, 11 \<mapsto> PCommand 2]
   \<and> callables two_options_world 11 (user two_options_world)
   \<and> next_command (cmds two_options_world 2) = Some PyNone
   \<and> is_complete (Suc 0) two_options_world 0 = Some (Inr (True, two_options_once))
   \<and> next_command (cmds two_options_once 0) = Some (Ref 1)
   \<and> is_complete (Suc 0) two_options_once 0 = Some (Inr (True, two_options_twice))
   \<and> next_command (cmds two_options_twice 0) = Some (Ref 1)
   \<and> next_command (cmds two_options_twice 2) = Some PyNone"
proof -
  have k: "kind (cmds two_options_world 0) =
     DynamicCommand id id [10, 11] [10 \<mapsto> PCommand 1, 11 \<mapsto> PCommand 2]"
    by (simp add: two_options_world_def setNextOption_def DynamicCommand_init_def Command_init_def)
  have c: "callables two_options_world 10 (user two_options_world)"
    "callables two_options_world 11 (user two_options_world)"
    and n: "next_command (cmds two_options_world 0) = Some PyNone"
    "next_command (cmds two_options_world 1) = Some PyNone"
    "next_command (cmds two_options_world 2) = Some PyNone"
    and tr: "trace two_options_world = []"
    by (simp_all add: two_options_world_def empty_world_def setNextOption_def DynamicCommand_init_def
        Command_init_def idle_command_def)
  have 1: "is_complete (Suc 0) two_options_world 0 = Some (Inr (True, two_options_once))"
    using k c n tr by (simp add: setNext_def log_event_def two_options_once_def)
  have k1: "kind (cmds two_options_once 0) =
     DynamicCommand id id [10, 11] [10 \<mapsto> PCommand 1, 11 \<mapsto> PCommand 2]"
    and c1: "callables two_options_once 10 (user two_options_once)"
    and n1: "next_command (cmds two_options_once 0) = Some (Ref 1)"
    "next_command (cmds two_options_once 1) = Some PyNone"
    and tr1: "trace two_options_once = [ConditionCall 10]"
    using k c n by (simp_all add: two_options_once_def update_cmd_def set_next_command_def)
  have l: "last_command_loop (cmds two_options_once) 1 = Some (Inr 1)"
    using n1(2) by (subst last_command_loop.simps) simp
  have 2: "is_complete (Suc 0) two_options_once 0 = Some (Inr (True, two_options_twice))"
    using k1 c1 n1 l tr1 by (simp add: setNext_def log_event_def two_options_twice_def)
  have n2: "next_command (cmds two_options_twice 0) = Some (Ref 1)"
    "next_command (cmds two_options_twice 2) = Some PyNone"
    using n1(1) n(3)
    by (simp_all add: two_options_twice_def two_options_once_def update_cmd_def set_next_command_def)
  from k c(2) n(3) 1 n1(1) 2 n2 show ?thesis by blast
qed

subsection \<open>\<^verbatim>\<open>ParallelCommand.periodic\<close>\<close>

text \<open>
  Claim C4 says that a child which reports complete and has no successor gets its
  \<^verbatim>\<open>periodic()\<close> called. The code reads \<^verbatim>\<open>command.next_command\<close> of every child that reports
  complete, and a child that never got this attribute makes \<^verbatim>\<open>ParallelCommand.periodic\<close> raise
  \<^verbatim>\<open>AttributeError\<close>: shown here for the first child of the list. A \<^verbatim>\<open>ParallelCommand\<close> is
  such a child, since its constructor does not run \<^verbatim>\<open>Command.__init__\<close>.
\<close>

theorem parallel_periodic_complete_child_without_attribute:
  assumes "kind (cmds w p) = ParallelCommand (c # cs)"
    and "is_complete d w c = Some (Inr (True, w1))"
    and "next_command (cmds w1 c) = None"
  shows "periodic (Suc d) w p = Some (Inl (AttributeError ''next_command''))"
proof -
  have "child_at w p 0 = Some c"
    using assms(1) by (simp add: child_at_def)
  moreover have "parallel_periodic_body (is_complete d) (first_run d) (periodic d) w p 0 c =
      Some (Inl (AttributeError ''next_command''))"
    using assms(2,3) by (simp add: parallel_periodic_body_def)
  ultimately show ?thesis
    using assms(1) by (simp add: upt_rec)
qed

theorem parallel_periodic_complete_child_without_attribute_witness:
  "kind (cmds nested_world 0) = ParallelCommand [1]
   \<and> cmds nested_world 1 = ParallelCommand_init []
   \<and> is_complete (Suc 0) nested_world 1 = Some (Inr (True, nested_world))
   \<and> periodic (Suc (Suc 0)) nested_world 0 = Some (Inl (AttributeError ''next_command''))"
proof -
  have k0: "kind (cmds nested_world 0) = ParallelCommand (1 # [])"
    and c1: "cmds nested_world 1 = ParallelCommand_init []"
    by (simp_all add: nested_world_def ParallelCommand_init_def)
  have ic: "is_complete (Suc 0) nested_world 1 = Some (Inr (True, nested_world))"
    using c1 by (simp add: ParallelCommand_init_def)
  have nx: "next_command (cmds nested_world 1) = None"
    using c1 by (simp add: ParallelCommand_init_def)
  from parallel_periodic_complete_child_without_attribute [OF k0 ic nx] k0 c1 ic
  show ?thesis by simp
qed

subsection \<open>The command phase of \<^verbatim>\<open>Scheduler.periodic\<close>\<close>

lemma constructors_first_run_occured:
  "first_run_occured (Command_init k) = None"
  "first_run_occured (DynamicCommand_init fr per) = None"
  "first_run_occured (ParallelCommand_init cs) = None"
  "first_run_occured (DelayCommand_init dt timer) = None"
  by (simp_all add: Command_init_def DynamicCommand_init_def ParallelCommand_init_def
      DelayCommand_init_def)

text \<open>
  Claim C1 says that a tick with a root command runs the root's \<^verbatim>\<open>first_run()\<close>, advances
  and calls \<^verbatim>\<open>periodic()\<close>. The code reads the attribute \<^verbatim>\<open>first_run_occured\<close> of the root
  command first, which no constructor assigns (the flag of \<^verbatim>\<open>Command\<close> is
  \<^verbatim>\<open>first_run_occurred\<close>): for every scheduler with a root command that lacks this attribute,
  in live mode or in simulation mode with a time stamp left, the tick raises
  \<^verbatim>\<open>AttributeError\<close> before any method of the command is called.
\<close>

theorem periodic_Scheduler_root_AttributeError:
  assumes "root_command s = Ref r"
    and "first_run_occured (cmds w r) = None"
    and "\<not> is_sim_Scheduler s \<or> (\<exists>t rest. time_stamps s = Some (t # rest))"
  shows "periodic_Scheduler d (s, w) = Some (Inl (AttributeError ''first_run_occured''))"
proof -
  have "\<exists>present s1. pop_time (fst (time_time w)) s = Inr (present, s1) \<and> root_command s1 = Ref r"
  proof (cases "is_sim_Scheduler s")
    case True
    with assms(3) obtain t rest where "time_stamps s = Some (t # rest)" by blast
    with True assms(1) show ?thesis by (simp add: pop_time_def)
  next
    case False
    with assms(1) show ?thesis by (simp add: pop_time_def)
  qed
  then obtain present s1 where p: "pop_time (fst (time_time w)) s = Inr (present, s1)"
    and r1: "root_command s1 = Ref r"
    by blast
  have "root_first_run d s1 (snd (time_time w)) = Some (Inl (AttributeError ''first_run_occured''))"
    using r1 assms(2) by (simp add: root_first_run_def time_time_def)
  with p show ?thesis
    by (simp add: periodic_Scheduler_def split_beta)
qed

theorem periodic_Scheduler_root_AttributeError_witness:
  "root_command delay_root_scheduler = Ref 0
   \<and> cmds delay_root_world 0 = DelayCommand_init 2 5
   \<and> \<not> is_sim_Scheduler delay_root_scheduler
   \<and> periodic_Scheduler 3 (delay_root_scheduler, delay_root_world) =
       Some (Inl (AttributeError ''first_run_occured''))"
proof -
  have r: "root_command delay_root_scheduler = Ref 0"
    and l: "\<not> is_sim_Scheduler delay_root_scheduler \<or> (\<exists>t rest. time_stamps delay_root_scheduler = Some (t # rest))"
    and l': "\<not> is_sim_Scheduler delay_root_scheduler"
    by (simp_all add: delay_root_scheduler_def set_command_group_def Scheduler_init_def)
  have c: "cmds delay_root_world 0 = DelayCommand_init 2 5"
    by (simp add: delay_root_world_def)
  then have f: "first_run_occured (cmds delay_root_world 0) = None"
    by (simp add: constructors_first_run_occured)
  from periodic_Scheduler_root_AttributeError [OF r f l, of 3] r c l' show ?thesis by simp
qed

subsection \<open>\<^verbatim>\<open>Scheduler.initialize\<close>\<close>

text \<open>
  Claim C7. When the cycle check reports a cycle among the ordered topics, \<^verbatim>\<open>initialize()\<close>
  raises the circular-dependency error and has written no log: the world, and with it every
  file, is as before, and no log file name was chosen. The cycle check and the ordering are
  the functions of \<^verbatim>\<open>pyros_math.graph_theory\<close>, parameters here.
\<close>

theorem initialize_cycle_no_log:
  assumes "cycle_is_present_in_any (subs w) (dependecy_sort (subs w) (topics s))"
  shows "initialize dependecy_sort cycle_is_present_in_any (s, w) =
           (Inl (TopicCircularDependency ''There is a circular dependency in the topics, aborting init''),
            s\<lparr>topics := dependecy_sort (subs w) (topics s)\<rparr>, w)
         \<and> files (snd (snd (initialize dependecy_sort cycle_is_present_in_any (s, w)))) = files w
         \<and> writing_file_name (fst (snd (initialize dependecy_sort cycle_is_present_in_any (s, w))))
             = writing_file_name s"
  using assms by (simp add: initialize_def)

theorem initialize_cycle_no_log_witness:
  "subscribed_to_itself (subs self_cycle_world) (keep_order (subs self_cycle_world) (topics one_topic_scheduler))
   \<and> fst (initialize keep_order subscribed_to_itself (one_topic_scheduler, self_cycle_world)) =
       Inl (TopicCircularDependency ''There is a circular dependency in the topics, aborting init'')
   \<and> files (snd (snd (initialize keep_order subscribed_to_itself (one_topic_scheduler, self_cycle_world))))
       = Map.empty
   \<and> writing_file_name (fst (snd (initialize keep_order subscribed_to_itself
         (one_topic_scheduler, self_cycle_world)))) = None"
proof -
  have c: "subscribed_to_itself (subs self_cycle_world)
      (keep_order (subs self_cycle_world) (topics one_topic_scheduler))"
    by (simp add: subscribed_to_itself_def keep_order_def self_cycle_world_def one_topic_scheduler_def
        add_topics_def Scheduler_init_def constant_topic_def Topic_init_def Subscriber_init_def
        add_subscriber_def)
  have f: "files self_cycle_world = Map.empty"
    and n: "writing_file_name one_topic_scheduler = None"
    by (simp_all add: self_cycle_world_def empty_world_def one_topic_scheduler_def add_topics_def
        Scheduler_init_def)
  from initialize_cycle_no_log [where cycle_is_present_in_any = subscribed_to_itself
      and dependecy_sort = keep_order and w = self_cycle_world and s = one_topic_scheduler] c f n
  show ?thesis by simp
qed

lemma collision_loop_ok:
  "collision_loop visited sub_names ts = Inr () \<longleftrightarrow>
     distinct ts \<and> set ts \<inter> set visited = {} \<and> set ts \<inter> set sub_names = {}"
  by (induction visited sub_names ts rule: collision_loop.induct) auto

lemma collision_loop_error:
  "collision_loop visited sub_names ts = Inl e \<Longrightarrow>
     \<exists>n\<in>set ts. e = topic_collision n \<or> e = subscriber_collision n"
  by (induction visited sub_names ts rule: collision_loop.induct) (auto split: if_splits)

lemma init_hardware_ok:
  assumes "throw_exception_on_init_failure s \<longrightarrow>
             (\<forall>sub\<in>set l. initialize_hardware_user (subs w sub) (user w))"
  shows "\<exists>w'. init_hardware s l w = (Inr (), w') \<and> (\<forall>a. name (subs w' a) = name (subs w a))"
  using assms
proof (induction l arbitrary: w)
  case Nil
  then show ?case by simp
next
  case (Cons sub l)
  let ?w1 = "update_sub sub (\<lambda>x. x\<lparr>is_sim := is_sim_Scheduler s\<rparr>) (log_event (InitializeHardware sub) w)"
  have u: "user ?w1 = user w"
    and h: "\<And>a. initialize_hardware_user (subs ?w1 a) = initialize_hardware_user (subs w a)"
    and n: "\<And>a. name (subs ?w1 a) = name (subs w a)"
    by (simp_all add: update_sub_def log_event_def)
  have "throw_exception_on_init_failure s \<longrightarrow>
             (\<forall>x\<in>set l. initialize_hardware_user (subs ?w1 x) (user ?w1))"
    using Cons.prems u h by simp
  from Cons.IH [OF this] obtain w' where
    "init_hardware s l ?w1 = (Inr (), w')" "\<forall>a. name (subs w' a) = name (subs ?w1 a)"
    by blast
  with Cons.prems n show ?case by (auto simp: Let_def)
qed

lemma begin_log_subs: "subs (snd (begin_log (s, w))) = subs w \<and> user (snd (begin_log (s, w))) = user w"
  by (simp add: begin_log_def time_time_def split_beta Let_def)

lemma begin_log_scheduler:
  "topics (fst (begin_log (s, w))) = topics s
   \<and> subscribers_Scheduler (fst (begin_log (s, w))) = subscribers_Scheduler s
   \<and> throw_exception_on_init_failure (fst (begin_log (s, w))) = throw_exception_on_init_failure s"
  by (simp add: begin_log_def time_time_def split_beta Let_def)

text \<open>
  Claim C6, as amended. When two topics of the topic list share a name, or a topic shares a
  name with a registered subscriber, and the steps that \<^verbatim>\<open>initialize()\<close> runs before the name
  check do not abort (no cycle is reported, and no subscriber's \<^verbatim>\<open>initialize_hardware\<close> fails
  under \<^verbatim>\<open>throw_exception_on_init_failure\<close>), \<^verbatim>\<open>initialize()\<close> raises a collision error, in
  whichever order the topics and subscribers were added (the ordering function only permutes
  the topic list).
\<close>

theorem initialize_name_collision:
  assumes "\<not> cycle_is_present_in_any (subs w) (dependecy_sort (subs w) (topics s))"
    and "mset (dependecy_sort (subs w) (topics s)) = mset (topics s)"
    and "throw_exception_on_init_failure s \<longrightarrow>
           (\<forall>sub\<in>set (subscribers_Scheduler s). initialize_hardware_user (subs w sub) (user w))"
    and "\<not> distinct (map (\<lambda>a. name (subs w a)) (topics s)) \<or>
         (\<exists>t\<in>set (topics s). \<exists>u\<in>set (subscribers_Scheduler s). name (subs w t) = name (subs w u))"
  shows "\<exists>n. fst (initialize dependecy_sort cycle_is_present_in_any (s, w)) = Inl (topic_collision n)
           \<or> fst (initialize dependecy_sort cycle_is_present_in_any (s, w)) = Inl (subscriber_collision n)"
proof -
  define sorted where "sorted = dependecy_sort (subs w) (topics s)"
  define s1 where "s1 = s\<lparr>topics := sorted\<rparr>"
  define w1 where "w1 = w\<lparr>stdout := stdout w @ map (\<lambda>a. ''Topic name: '' @ name (subs w a)) (topics s1)\<rparr>"
  define s2 where "s2 = fst (begin_log (s1, w1))"
  define w2 where "w2 = snd (begin_log (s1, w1))"
  have bl: "begin_log (s1, w1) = (s2, w2)"
    by (simp add: s2_def w2_def)
  have s2: "topics s2 = sorted" "subscribers_Scheduler s2 = subscribers_Scheduler s"
    "throw_exception_on_init_failure s2 = throw_exception_on_init_failure s"
    using begin_log_scheduler [of s1 w1] by (simp_all add: s2_def s1_def)
  have w2: "subs w2 = subs w" "user w2 = user w"
    using begin_log_subs [of s1 w1] by (simp_all add: w2_def w1_def)
  have "throw_exception_on_init_failure s2 \<longrightarrow>
           (\<forall>sub\<in>set (subscribers_Scheduler s2). initialize_hardware_user (subs w2 sub) (user w2))"
    using assms(3) s2 w2 by simp
  from init_hardware_ok [OF this] obtain w3 where
    ih: "init_hardware s2 (subscribers_Scheduler s2) w2 = (Inr (), w3)"
    and names: "\<And>a. name (subs w3 a) = name (subs w a)"
    using w2 by auto
  have ms: "mset (map (\<lambda>a. name (subs w a)) sorted) = mset (map (\<lambda>a. name (subs w a)) (topics s))"
    using assms(2) unfolding sorted_def by (metis mset_map)
  have st: "set sorted = set (topics s)"
    using assms(2) by (auto simp: sorted_def dest: mset_eq_setD)
  have chk: "check_topic_name_collision s2 w3 =
      collision_loop [] (map (\<lambda>a. name (subs w a)) (subscribers_Scheduler s))
        (map (\<lambda>a. name (subs w a)) sorted)"
    using s2 names by (simp add: check_topic_name_collision_def)
  have "check_topic_name_collision s2 w3 \<noteq> Inr ()"
  proof
    assume "check_topic_name_collision s2 w3 = Inr ()"
    with chk have "collision_loop [] (map (\<lambda>a. name (subs w a)) (subscribers_Scheduler s))
        (map (\<lambda>a. name (subs w a)) sorted) = Inr ()"
      by simp
    then have d: "distinct (map (\<lambda>a. name (subs w a)) sorted)"
      and i: "set (map (\<lambda>a. name (subs w a)) sorted) \<inter>
              set (map (\<lambda>a. name (subs w a)) (subscribers_Scheduler s)) = {}"
      unfolding collision_loop_ok by blast+
    from d ms have "distinct (map (\<lambda>a. name (subs w a)) (topics s))"
      using mset_eq_imp_distinct_iff by blast
    moreover from i st have "\<not> (\<exists>t\<in>set (topics s). \<exists>u\<in>set (subscribers_Scheduler s).
        name (subs w t) = name (subs w u))"
      by auto
    ultimately show False using assms(4) by blast
  qed
  then obtain e where e: "check_topic_name_collision s2 w3 = Inl e"
    by (cases "check_topic_name_collision s2 w3") auto
  with chk have "collision_loop [] (map (\<lambda>a. name (subs w a)) (subscribers_Scheduler s))
        (map (\<lambda>a. name (subs w a)) sorted) = Inl e"
    by simp
  then obtain n where n: "e = topic_collision n \<or> e = subscriber_collision n"
    by (blast dest: collision_loop_error)
  have "fst (initialize dependecy_sort cycle_is_present_in_any (s, w)) = Inl e"
  proof -
    have c: "\<not> cycle_is_present_in_any (subs w) (topics s1)"
      using assms(1) by (simp add: s1_def sorted_def)
    have "initialize dependecy_sort cycle_is_present_in_any (s, w) =
        (let (s2, w2) = begin_log (s1, w1)
         in case init_hardware s2 (subscribers_Scheduler s2) w2 of
              (Inl e, w3) \<Rightarrow> (Inl e, s2, w3)
            | (Inr _, w3) \<Rightarrow>
                (case check_topic_name_collision s2 w3 of
                   Inl e \<Rightarrow> (Inl e, s2, w3)
                 | Inr _ \<Rightarrow>
                     if is_sim_Scheduler s2 then
                       (case file_reading_name s2 of
                          None \<Rightarrow>
                            (Inl (Exception
                               ''Must provide file name to read from in simulation mode.''), s2, w3)
                        | Some p \<Rightarrow>
                            (case dump_file_contents p (files w3) of
                               Inl e \<Rightarrow> (Inl e, s2, w3)
                             | Inr (stamps, messages_contents) \<Rightarrow>
                                 (Inr (),
                                  s2\<lparr>time_stamps := Some stamps,
                                     read_topics := Some (construct_dictionary_of_messages_vs_time
                                                           stamps messages_contents)\<rparr>,
                                  w3)))
                     else (Inr (), s2, w3)))"
      using c unfolding initialize_def s1_def sorted_def w1_def by (simp add: Let_def)
    with bl ih e show ?thesis by simp
  qed
  with n show ?thesis by auto
qed

theorem initialize_name_collision_witness:
  "name (subs collision_world 1) = name (subs collision_world 2)
   \<and> topics collision_scheduler_ok = [1, 2]
   \<and> fst (initialize keep_order subscribed_to_itself (collision_scheduler_ok, collision_world))
       = Inl (topic_collision ''a'')"
proof -
  have t: "topics collision_scheduler_ok = [1, 2]"
    and su: "subscribers_Scheduler collision_scheduler_ok = [4]"
    by (simp_all add: collision_scheduler_ok_def add_topics_def add_subscribers_def Scheduler_init_def)
  have n: "name (subs collision_world 1) = ''a''" "name (subs collision_world 2) = ''a''"
    "name (subs collision_world 4) = ''arm''"
    and tp: "topic (subs collision_world 1) = topic (constant_topic ''a'')"
      "topic (subs collision_world 2) = topic (constant_topic ''a'')"
    and hw: "initialize_hardware_user (subs collision_world 4) (user collision_world)"
    by (simp_all add: collision_world_def constant_topic_def Topic_init_def plain_subscriber_def Subscriber_init_def)
  have a1: "\<not> subscribed_to_itself (subs collision_world)
      (keep_order (subs collision_world) (topics collision_scheduler_ok))"
    using t tp by (simp add: subscribed_to_itself_def keep_order_def constant_topic_def Topic_init_def Subscriber_init_def)
  have a2: "mset (keep_order (subs collision_world) (topics collision_scheduler_ok)) =
      mset (topics collision_scheduler_ok)"
    by (simp add: keep_order_def)
  have a3: "throw_exception_on_init_failure collision_scheduler_ok \<longrightarrow>
      (\<forall>sub\<in>set (subscribers_Scheduler collision_scheduler_ok).
         initialize_hardware_user (subs collision_world sub) (user collision_world))"
    using su hw by simp
  have a4: "\<not> distinct (map (\<lambda>a. name (subs collision_world a)) (topics collision_scheduler_ok)) \<or>
      (\<exists>t\<in>set (topics collision_scheduler_ok). \<exists>u\<in>set (subscribers_Scheduler collision_scheduler_ok).
         name (subs collision_world t) = name (subs collision_world u))"
    using t n by simp
  from initialize_name_collision [where cycle_is_present_in_any = subscribed_to_itself
      and dependecy_sort = keep_order, OF a1 a2 a3 a4]
  obtain m where m: "fst (initialize keep_order subscribed_to_itself (collision_scheduler_ok, collision_world))
        = Inl (topic_collision m)
      \<or> fst (initialize keep_order subscribed_to_itself (collision_scheduler_ok, collision_world))
        = Inl (subscriber_collision m)"
    by blast
  have ev: "fst (initialize keep_order subscribed_to_itself (collision_scheduler_ok, collision_world))
       = Inl (topic_collision ''a'')"
    using a1 t su n hw
    by (simp add: initialize_def Let_def keep_order_def begin_log_def time_time_def split_beta
        check_topic_name_collision_def update_sub_def log_event_def)
  from m ev t n show ?thesis by simp
qed

text \<open>
  The claim as stated (a name collision always makes \<^verbatim>\<open>initialize()\<close> raise a collision error)
  fails when an earlier step aborts: with two topics named \<^verbatim>\<open>a\<close> and a subscriber whose
  hardware does not initialise, the error raised is the hardware failure.
\<close>

theorem initialize_name_collision_counterexample:
  "topics collision_scheduler = [1, 2]
   \<and> name (subs collision_world 1) = ''a'' \<and> name (subs collision_world 2) = ''a''
   \<and> fst (initialize keep_order subscribed_to_itself (collision_scheduler, collision_world))
       = Inl (hardware_failure ''motor'')
   \<and> hardware_failure ''motor'' \<noteq> topic_collision ''a''"
proof -
  have t: "topics collision_scheduler = [1, 2]"
    and su: "subscribers_Scheduler collision_scheduler = [3]"
    and th: "throw_exception_on_init_failure collision_scheduler"
    and sm: "\<not> is_sim_Scheduler collision_scheduler"
    by (simp_all add: collision_scheduler_def add_topics_def add_subscribers_def Scheduler_init_def)
  have n: "name (subs collision_world 1) = ''a''" "name (subs collision_world 2) = ''a''"
    "name (subs collision_world 3) = ''motor''"
    and tp: "topic (subs collision_world 1) = topic (constant_topic ''a'')"
      "topic (subs collision_world 2) = topic (constant_topic ''a'')"
    and hw: "\<not> initialize_hardware_user (subs collision_world 3) (user collision_world)"
    by (simp_all add: collision_world_def constant_topic_def Topic_init_def plain_subscriber_def Subscriber_init_def)
  have a1: "\<not> subscribed_to_itself (subs collision_world)
      (keep_order (subs collision_world) (topics collision_scheduler))"
    using t tp by (simp add: subscribed_to_itself_def keep_order_def constant_topic_def Topic_init_def Subscriber_init_def)
  have ev: "fst (initialize keep_order subscribed_to_itself (collision_scheduler, collision_world))
       = Inl (hardware_failure ''motor'')"
    using a1 t su n hw th sm
    by (simp add: initialize_def Let_def keep_order_def begin_log_def time_time_def split_beta
        log_event_def)
  have "hardware_failure ''motor'' \<noteq> topic_collision ''a''"
    by (simp add: hardware_failure_def topic_collision_def)
  with ev t n show ?thesis by simp
qed

subsection \<open>The command methods leave topics and subscribers alone\<close>

lemma setNext_subs: "setNext w c v = Some (Inr w') \<Longrightarrow> subs w' = subs w"
  by (cases v) (auto simp: setNext_def update_cmd_def split: option.splits ref.splits sum.splits)

lemma dynamic_is_complete_subs:
  "dynamic_is_complete w self pairs conds = Some (Inr (b, w')) \<Longrightarrow> subs w' = subs w"
proof (induction conds arbitrary: w)
  case Nil
  then show ?case by simp
next
  case (Cons c conds)
  show ?case
  proof (cases "callables w c (user w)")
    case True
    with Cons.prems show ?thesis
      by (auto simp: log_event_def split: option.splits sum.splits dest!: setNext_subs)
  next
    case False
    with Cons.prems have "dynamic_is_complete (log_event (ConditionCall c) w) self pairs conds =
        Some (Inr (b, w'))"
      by simp
    from Cons.IH [OF this] show ?thesis by (simp add: log_event_def)
  qed
qed

lemma parallel_first_run_loop_subs:
  assumes "\<And>w a w'. fr w a = Some (Inr w') \<Longrightarrow> subs w' = subs w"
  shows "parallel_first_run_loop fr w self l = Some (Inr w') \<Longrightarrow> subs w' = subs w"
proof (induction l arbitrary: w)
  case Nil
  then show ?case by simp
next
  case (Cons i l)
  show ?case
  proof (cases "child_at w self i")
    case None
    with Cons.prems show ?thesis by simp
  next
    case (Some c)
    with Cons.prems obtain w1 where 1: "fr w c = Some (Inr w1)"
      and 2: "parallel_first_run_loop fr w1 self l = Some (Inr w')"
      by (auto split: option.splits sum.splits)
    from Cons.IH [OF 2] assms [OF 1] show ?thesis by simp
  qed
qed

lemma parallel_all_loop_subs:
  assumes "\<And>w a b w'. ic w a = Some (Inr (b, w')) \<Longrightarrow> subs w' = subs w"
  shows "parallel_all_loop ic w self l = Some (Inr (b, w')) \<Longrightarrow> subs w' = subs w"
proof (induction l arbitrary: w)
  case Nil
  then show ?case by simp
next
  case (Cons i l)
  show ?case
  proof (cases "child_at w self i")
    case None
    with Cons.prems show ?thesis by simp
  next
    case (Some c)
    with Cons.prems obtain f w1 where 1: "ic w c = Some (Inr (f, w1))"
      and 2: "if f then parallel_all_loop ic w1 self l = Some (Inr (b, w')) else w' = w1"
      by (auto split: option.splits sum.splits if_splits)
    show ?thesis
    proof (cases f)
      case True
      with 2 have "parallel_all_loop ic w1 self l = Some (Inr (b, w'))" by simp
      from Cons.IH [OF this] assms [OF 1] show ?thesis by simp
    next
      case False
      with 2 assms [OF 1] show ?thesis by simp
    qed
  qed
qed

lemma parallel_periodic_body_subs:
  assumes "\<And>w a b w'. ic w a = Some (Inr (b, w')) \<Longrightarrow> subs w' = subs w"
    and "\<And>w a w'. fr w a = Some (Inr w') \<Longrightarrow> subs w' = subs w"
    and "\<And>w a w'. per w a = Some (Inr w') \<Longrightarrow> subs w' = subs w"
  shows "parallel_periodic_body ic fr per w self i c = Some (Inr w') \<Longrightarrow> subs w' = subs w"
  unfolding parallel_periodic_body_def
  by (auto simp: update_cmd_def Let_def split: option.splits sum.splits if_splits ref.splits
      dest!: assms)

lemma parallel_periodic_loop_subs:
  assumes "\<And>w a b w'. ic w a = Some (Inr (b, w')) \<Longrightarrow> subs w' = subs w"
    and "\<And>w a w'. fr w a = Some (Inr w') \<Longrightarrow> subs w' = subs w"
    and "\<And>w a w'. per w a = Some (Inr w') \<Longrightarrow> subs w' = subs w"
  shows "parallel_periodic_loop ic fr per w self l = Some (Inr w') \<Longrightarrow> subs w' = subs w"
proof (induction l arbitrary: w)
  case Nil
  then show ?case by simp
next
  case (Cons i l)
  show ?case
  proof (cases "child_at w self i")
    case None
    with Cons.prems show ?thesis by simp
  next
    case (Some c)
    with Cons.prems obtain w1 where 1: "parallel_periodic_body ic fr per w self i c = Some (Inr w1)"
      and 2: "parallel_periodic_loop ic fr per w1 self l = Some (Inr w')"
      by (auto split: option.splits sum.splits)
    from Cons.IH [OF 2] parallel_periodic_body_subs [OF assms 1] show ?thesis by simp
  qed
qed

lemma command_methods_subs:
  "(\<forall>(w::'u world) a w'. first_run d w a = Some (Inr w') \<longrightarrow> subs w' = subs w)
   \<and> (\<forall>(w::'u world) a w'. first_run_behavior d w a = Some (Inr w') \<longrightarrow> subs w' = subs w)
   \<and> (\<forall>(w::'u world) a w'. periodic d w a = Some (Inr w') \<longrightarrow> subs w' = subs w)
   \<and> (\<forall>(w::'u world) a b w'. is_complete d w a = Some (Inr (b, w')) \<longrightarrow> subs w' = subs w)"
proof (induction d)
  case 0
  then show ?case by simp
next
  case (Suc d)
  have fr: "\<And>(w::'u world) a w'. first_run d w a = Some (Inr w') \<Longrightarrow> subs w' = subs w"
    using Suc by blast
  have frb: "\<And>(w::'u world) a w'. first_run_behavior d w a = Some (Inr w') \<Longrightarrow> subs w' = subs w"
    using Suc by blast
  have per: "\<And>(w::'u world) a w'. periodic d w a = Some (Inr w') \<Longrightarrow> subs w' = subs w"
    using Suc by blast
  have ic: "\<And>(w::'u world) a b w'. is_complete d w a = Some (Inr (b, w')) \<Longrightarrow> subs w' = subs w"
    using Suc by blast
  have 1: "subs w' = subs w" if "first_run (Suc d) w a = Some (Inr w')" for w :: "'u world" and a w'
    using that by (auto simp: update_cmd_def split: if_splits option.splits sum.splits dest: frb)
  have 2: "subs w' = subs w" if "first_run_behavior (Suc d) w a = Some (Inr w')" for w :: "'u world" and a w'
  proof (cases "kind (cmds w a)")
    case (ParallelCommand cs)
    with that show ?thesis
      by (auto simp: update_cmd_def split: option.splits sum.splits
          dest: parallel_first_run_loop_subs [OF fr, rotated])
  qed (use that in \<open>auto simp: update_cmd_def log_event_def split: sum.splits\<close>)
  have 3: "subs w' = subs w" if "periodic (Suc d) w a = Some (Inr w')" for w :: "'u world" and a w'
  proof (cases "kind (cmds w a)")
    case (ParallelCommand cs)
    with that show ?thesis
      by (auto dest: parallel_periodic_loop_subs [OF ic fr per, rotated -1])
  qed (use that in \<open>auto simp: log_event_def\<close>)
  have 4: "subs w' = subs w" if "is_complete (Suc d) w a = Some (Inr (b, w'))" for w :: "'u world" and a b w'
  proof (cases "kind (cmds w a)")
    case (ParallelCommand cs)
    with that show ?thesis
      by (auto dest: parallel_all_loop_subs [OF ic, rotated])
  next
    case (DynamicCommand x1 x2 x3 x4)
    with that show ?thesis by (auto dest: dynamic_is_complete_subs)
  qed (use that in \<open>auto simp: log_event_def split: sum.splits option.splits\<close>)
  from 1 2 3 4 show ?case by blast
qed

subsection \<open>\<^verbatim>\<open>DelayCommand\<close> and the timer\<close>

text \<open>The three methods of a \<^verbatim>\<open>DelayCommand\<close>, in terms of the reading \<open>r\<close> of its timer:
  \<^verbatim>\<open>first_run_behavior\<close> stores \<open>r\<close> as the start, \<^verbatim>\<open>periodic\<close> changes nothing, and
  \<^verbatim>\<open>is_complete\<close> compares \<open>r\<close> minus the start with the delay.\<close>

lemma DelayCommand_methods:
  assumes "kind (cmds w c) = DelayCommand st delay T" and "timer_reading w T = Inr r"
  shows "first_run_behavior (Suc k) w c =
           Some (Inr (update_cmd c
             (\<lambda>x. set_first_run_occurred (x\<lparr>kind := DelayCommand (Some r) delay T\<rparr>)) w))"
    and "periodic (Suc k) w c = Some (Inr w)"
    and "st = Some s0 \<Longrightarrow> is_complete (Suc k) w c = Some (Inr (delay \<le> r - s0, w))"
  using assms by simp_all

lemma replayed_timer_reading: "replayed_timer w T r \<Longrightarrow> timer_reading w T = Inr r"
  by (auto simp: replayed_timer_def timer_reading_def)

lemma replayed_timer_topic:
  "topic (subs w' T) = topic (subs w T) \<Longrightarrow> replayed_timer w' T r = replayed_timer w T r"
  by (simp add: replayed_timer_def)

lemma notify_loop_topic: "topic (subs (notify_loop nm msg l w) a) = topic (subs w a)"
  by (induction l arbitrary: w) (simp_all add: update_sub_def store_messages_def)

lemma notify_loop_name: "name (subs (notify_loop nm msg l w) a) = name (subs w a)"
  by (induction l arbitrary: w) (simp_all add: update_sub_def store_messages_def)

lemma publish_periodic_from_log_timer:
  assumes "publish_periodic_from_log t msg c dl w = Inr (x, w')" and "replayed_timer w T r"
  shows "replayed_timer w' T r"
  using assms
  by (auto simp: publish_periodic_from_log_def replayed_timer_def notify_subscribers_def
      notify_loop_topic update_topic_def update_sub_def Let_def split: option.splits)

lemma generate_messages_periodic_other:
  "t \<noteq> T \<Longrightarrow> topic (subs (snd (generate_messages_periodic t tf w)) T) = topic (subs w T)"
  by (auto simp: generate_messages_periodic_def log_event_def update_topic_def update_sub_def
      time_time_def split_beta Let_def split: generator.splits)

lemma publish_periodic_other:
  assumes "publish_periodic t w = Inr (x, w')" and "t \<noteq> T"
  shows "topic (subs w' T) = topic (subs w T)"
proof -
  have "topic (subs w t) \<noteq> None"
  proof
    assume "topic (subs w t) = None"
    then have "publish_periodic t w = Inl (AttributeError ''publish_periodic'')"
      by (simp add: publish_periodic_def)
    with assms(1) show False by simp
  qed
  then obtain tf0 where tf0: "topic (subs w t) = Some tf0" by blast
  define now where "now = fst (time_time w)"
  define w1 where "w1 = snd (time_time w)"
  define tf1 where "tf1 = tf0\<lparr>current_time := now, delta_time_seconds := now - previous_time tf0\<rparr>"
  define w2 where "w2 = update_topic t (\<lambda>_. tf1) w1"
  define body where "body = fst (generate_messages_periodic t tf1 w2)"
  define w3 where "w3 = snd (generate_messages_periodic t tf1 w2)"
  define w4 where "w4 = update_topic t (\<lambda>tp. tp\<lparr>message_body := body, previous_time := now\<rparr>) w3"
  define w5 where "w5 = snd (time_time w4)"
  have eq: "publish_periodic t w =
      (case Message (fst (time_time w4)) body of
         Inl e \<Rightarrow> Inl e
       | Inr msg \<Rightarrow> Inr ((msg, now, now - previous_time tf0), notify_subscribers t tf1 msg w5))"
    unfolding publish_periodic_def w5_def w4_def w3_def body_def w2_def tf1_def w1_def now_def
    by (simp add: tf0 split_beta Let_def)
  from assms(1) obtain msg where w': "w' = notify_subscribers t tf1 msg w5"
    unfolding eq by (cases "Message (fst (time_time w4)) body") auto
  have "topic (subs w5 T) = topic (subs w4 T)" by (simp add: w5_def time_time_def)
  also have "\<dots> = topic (subs w3 T)" using assms(2) by (simp add: w4_def update_topic_def update_sub_def)
  also have "\<dots> = topic (subs w2 T)" using assms(2) by (simp add: w3_def generate_messages_periodic_other)
  also have "\<dots> = topic (subs w1 T)" using assms(2) by (simp add: w2_def update_topic_def update_sub_def)
  also have "\<dots> = topic (subs w T)" by (simp add: w1_def time_time_def)
  finally show ?thesis by (simp add: w' notify_subscribers_def notify_loop_topic)
qed

lemma publish_step_sim_flagged:
  assumes "topic (subs w t) = Some tf" and "replace_message_with_log tf"
  shows "publish_step True logged t w =
     (case logged (name (subs w t)) of
        None \<Rightarrow> Inl (KeyError (name (subs w t)))
      | Some (d, c, dl) \<Rightarrow>
          (case Message (fst (time_time w)) d of
             Inl e \<Rightarrow> Inl e
           | Inr m \<Rightarrow>
               (case publish_periodic_from_log t (m\<lparr>time_stamp := c\<rparr>) c dl (snd (time_time w)) of
                  Inl e \<Rightarrow> Inl e
                | Inr (_, w2) \<Rightarrow> Inr ((name (subs w t), message m, c, dl), w2))))"
  using assms by (simp add: publish_step_def split_beta Let_def split: option.split sum.split)

lemma publish_step_unflagged:
  assumes "topic (subs w t) = Some tf" and "\<not> replace_message_with_log tf \<or> \<not> flag"
  shows "publish_step flag logged t w =
     (case publish_periodic t w of
        Inl e \<Rightarrow> Inl e
      | Inr ((msg, c, dl), w1) \<Rightarrow> Inr ((name (subs w t), message msg, c, dl), w1))"
  using assms by (auto simp: publish_step_def)

lemma publish_step_timer:
  assumes "publish_step True logged t w = Inr (x, w')" and "replayed_timer w T r"
  shows "replayed_timer w' T r"
proof -
  have "topic (subs w t) \<noteq> None"
  proof
    assume "topic (subs w t) = None"
    then have "publish_step True logged t w = Inl (AttributeError ''replace_message_with_log'')"
      by (simp add: publish_step_def)
    with assms(1) show False by simp
  qed
  then obtain tf where tf: "topic (subs w t) = Some tf" by blast
  show ?thesis
  proof (cases "replace_message_with_log tf")
    case True
    note eq = publish_step_sim_flagged [OF tf True, of logged]
    have a: "(case logged (name (subs w t)) of
        None \<Rightarrow> Inl (KeyError (name (subs w t)))
      | Some (d, c, dl) \<Rightarrow>
          (case Message (fst (time_time w)) d of
             Inl e \<Rightarrow> Inl e
           | Inr m \<Rightarrow>
               (case publish_periodic_from_log t (m\<lparr>time_stamp := c\<rparr>) c dl (snd (time_time w)) of
                  Inl e \<Rightarrow> Inl e
                | Inr (_, w2) \<Rightarrow> Inr ((name (subs w t), message m, c, dl), w2)))) = Inr (x, w')"
      using assms(1) unfolding eq .
    obtain d c dl where l: "logged (name (subs w t)) = Some (d, c, dl)"
      using a by (cases "logged (name (subs w t))") auto
    obtain m where m: "Message (fst (time_time w)) d = Inr m"
      using a l by (cases "Message (fst (time_time w)) d") auto
    define msg where "msg = m\<lparr>time_stamp := c\<rparr>"
    have "(case publish_periodic_from_log t msg c dl (snd (time_time w)) of
             Inl e \<Rightarrow> Inl e
           | Inr (_, w2) \<Rightarrow> Inr ((name (subs w t), message m, c, dl), w2)) = Inr (x, w')"
      using a l m by (simp add: msg_def)
    then obtain y where
      p: "publish_periodic_from_log t msg c dl (snd (time_time w)) = Inr (y, w')"
      by (cases "publish_periodic_from_log t msg c dl (snd (time_time w))") auto
    from assms(2) have "replayed_timer (snd (time_time w)) T r"
      by (simp add: replayed_timer_def time_time_def)
    with p show ?thesis by (rule publish_periodic_from_log_timer)
  next
    case False
    with assms(2) tf have ne: "t \<noteq> T" by (auto simp: replayed_timer_def)
    from False have "\<not> replace_message_with_log tf \<or> \<not> True" by simp
    note eq = publish_step_unflagged [OF tf this, of logged]
    have "(case publish_periodic t w of
        Inl e \<Rightarrow> Inl e
      | Inr ((msg, c, dl), w1) \<Rightarrow> Inr ((name (subs w t), message msg, c, dl), w1)) = Inr (x, w')"
      using assms(1) unfolding eq .
    then obtain y where "publish_periodic t w = Inr (y, w')"
      by (cases "publish_periodic t w") auto
    from publish_periodic_other [OF this ne] have "topic (subs w' T) = topic (subs w T)" .
    from replayed_timer_topic [OF this] assms(2) show ?thesis by blast
  qed
qed

lemma publish_loop_timer:
  "publish_loop True logged ts stored w = Inr (x, w') \<Longrightarrow> replayed_timer w T r \<Longrightarrow>
   replayed_timer w' T r"
proof (induction ts arbitrary: stored w)
  case Nil
  then show ?case by simp
next
  case (Cons t ts)
  from Cons.prems(1) obtain n entry w1 where 1: "publish_step True logged t w = Inr ((n, entry), w1)"
    and 2: "publish_loop True logged ts (AList.update n entry stored) w1 = Inr (x, w')"
    by (auto split: sum.splits prod.splits)
  from publish_step_timer [OF 1 Cons.prems(2)] Cons.IH [OF 2] show ?case by blast
qed

lemma periodic_Subscriber_subs: "subs (periodic_Subscriber a w) = subs w"
  by (simp add: periodic_Subscriber_def subscriber_periodic_sim_def subscriber_periodic_def
      log_event_def split: option.splits)

lemma fold_periodic_Subscriber_subs: "subs (fold periodic_Subscriber l w) = subs w"
  by (induction l arbitrary: w) (simp_all add: periodic_Subscriber_subs)

lemma publish_phase_timer:
  assumes "publish_phase present s w = Inr w'" and "is_sim_Scheduler s" and "replayed_timer w T r"
  shows "replayed_timer w' T r"
proof -
  from assms(1,2) obtain stored w1 where
    1: "publish_loop True (get_message_at_time present (read_topics s)) (topics s) [] w = Inr (stored, w1)"
    and 2: "w' = fold periodic_Subscriber (topics s) (fold periodic_Subscriber (subscribers_Scheduler s) w1)"
    by (auto simp: publish_phase_def write_log_def Let_def split: sum.splits prod.splits)
  from publish_loop_timer [OF 1 assms(3)] have "replayed_timer w1 T r" .
  then show ?thesis
    by (simp add: 2 replayed_timer_def fold_periodic_Subscriber_subs)
qed

lemma first_run_subs: "first_run d w a = Some (Inr w') \<Longrightarrow> subs w' = subs w"
  by (rule command_methods_subs [THEN conjunct1, rule_format])

lemma periodic_subs: "periodic d w a = Some (Inr w') \<Longrightarrow> subs w' = subs w"
  by (rule command_methods_subs [THEN conjunct2, THEN conjunct2, THEN conjunct1, rule_format])

lemma is_complete_subs: "is_complete d w a = Some (Inr (b, w')) \<Longrightarrow> subs w' = subs w"
  by (rule command_methods_subs [THEN conjunct2, THEN conjunct2, THEN conjunct2, rule_format])

lemma root_first_run_subs: "root_first_run d s w = Some (Inr w') \<Longrightarrow> subs w' = subs w"
  by (auto simp: root_first_run_def split: ref.splits option.splits if_splits dest: first_run_subs)

lemma advance_command_subs:
  "advance_command d s w = Some (Inr (s', w')) \<Longrightarrow>
   subs w' = subs w \<and> is_sim_Scheduler s' = is_sim_Scheduler s \<and> topics s' = topics s \<and> subscribers_Scheduler s' = subscribers_Scheduler s
     \<and> read_topics s' = read_topics s"
  by (auto simp: advance_command_def split: ref.splits option.splits if_splits sum.splits
      dest: is_complete_subs)

lemma root_periodic_subs: "root_periodic d s w = Some (Inr w') \<Longrightarrow> subs w' = subs w"
  by (auto simp: root_periodic_def split: ref.splits dest: periodic_subs)

lemma pop_time_sim: "pop_time now s = Inr (t, s1) \<Longrightarrow> is_sim_Scheduler s1 = is_sim_Scheduler s"
  by (auto simp: pop_time_def split: if_splits option.splits list.splits)

text \<open>
  Claim C5 says that a \<^verbatim>\<open>DelayCommand\<close> sees in replay the elapsed time of the live run,
  because it reads the injected time topic. In simulation mode, however, a tick of the
  scheduler feeds the \<^verbatim>\<open>SystemTimeTopic\<close> through \<^verbatim>\<open>publish_periodic_from_log\<close>, which does not
  touch the dictionary \<^verbatim>\<open>message\<close> that \<^verbatim>\<open>DelayCommand\<close> reads: whenever a tick in simulation
  mode returns, the reading \<open>r\<close> of the timer is what it was before, and \<^verbatim>\<open>is_complete()\<close> of
  a \<^verbatim>\<open>DelayCommand\<close> on this timer still compares \<open>r\<close> minus its start with the delay.
\<close>

theorem replay_tick_keeps_timer_reading:
  assumes "is_sim_Scheduler s" and "replayed_timer w T r"
    and "periodic_Scheduler d (s, w) = Some (Inr (s', w'))"
  shows "replayed_timer w' T r \<and> timer_reading w' T = Inr r
     \<and> (kind (cmds w' c) = DelayCommand (Some st) delay T \<longrightarrow>
          is_complete (Suc k) w' c = Some (Inr (delay \<le> r - st, w')))"
proof -
  define w1 where "w1 = snd (time_time w)"
  have a: "(case pop_time (fst (time_time w)) s of
        Inl e \<Rightarrow> Some (Inl e)
      | Inr (present_time, s1) \<Rightarrow>
          (case root_first_run d s1 w1 of
             None \<Rightarrow> None
           | Some (Inl e) \<Rightarrow> Some (Inl e)
           | Some (Inr w2) \<Rightarrow>
               (case advance_command d s1 w2 of
                  None \<Rightarrow> None
                | Some (Inl e) \<Rightarrow> Some (Inl e)
                | Some (Inr (s2, w3)) \<Rightarrow>
                    (case root_periodic d s2 w3 of
                       None \<Rightarrow> None
                     | Some (Inl e) \<Rightarrow> Some (Inl e)
                     | Some (Inr w4) \<Rightarrow>
                         (case publish_phase present_time s2 w4 of
                            Inl e \<Rightarrow> Some (Inl e)
                          | Inr w5 \<Rightarrow> Some (Inr (s2, w5))))))) = Some (Inr (s', w'))"
    unfolding assms(3) [symmetric] periodic_Scheduler_def w1_def
    by (simp add: split_beta cong: sum.case_cong option.case_cong)
  obtain present s1 where p: "pop_time (fst (time_time w)) s = Inr (present, s1)"
    using a by (cases "pop_time (fst (time_time w)) s") auto
  obtain w2 where f: "root_first_run d s1 w1 = Some (Inr w2)"
    using a p by (cases "root_first_run d s1 w1") (auto split: sum.splits)
  obtain s2 w3 where ad: "advance_command d s1 w2 = Some (Inr (s2, w3))"
    using a p f by (cases "advance_command d s1 w2") (auto split: sum.splits)
  obtain w4 where rp: "root_periodic d s2 w3 = Some (Inr w4)"
    using a p f ad by (cases "root_periodic d s2 w3") (auto split: sum.splits)
  have pp: "publish_phase present s2 w4 = Inr w'"
    using a p f ad rp by (cases "publish_phase present s2 w4") auto
  have "subs w4 = subs w"
    using root_first_run_subs [OF f] advance_command_subs [OF ad] root_periodic_subs [OF rp]
    by (simp add: w1_def time_time_def)
  with assms(2) have t4: "replayed_timer w4 T r"
    by (simp add: replayed_timer_def)
  have "is_sim_Scheduler s2"
    using assms(1) pop_time_sim [OF p] advance_command_subs [OF ad] by simp
  from publish_phase_timer [OF pp this t4] have t': "replayed_timer w' T r" .
  then have rd: "timer_reading w' T = Inr r"
    by (rule replayed_timer_reading)
  then have "kind (cmds w' c) = DelayCommand (Some st) delay T \<longrightarrow>
          is_complete (Suc k) w' c = Some (Inr (delay \<le> r - st, w'))"
    by simp
  with t' rd show ?thesis by blast
qed

lemma timer_world_facts:
  "replayed_timer timer_world 5 5000"
  "kind (cmds timer_world 0) = DelayCommand (Some 5000) 2 5"
  "name (subs timer_world 5) = ''SystemTime''"
  by (auto simp: replayed_timer_def timer_world_def empty_world_def SystemTimeTopic_init_def
      Topic_init_def Subscriber_init_def DelayCommand_init_def Command_init_def Let_def)

lemma replay_tick_evaluated:
  "\<exists>s' w'. periodic_Scheduler 1 (replay_timer_scheduler, timer_world) = Some (Inr (s', w'))
     \<and> cmds w' = cmds timer_world"
  by (simp add: periodic_Scheduler_def replay_timer_scheduler_def timer_world_def empty_world_def
      SystemTimeTopic_init_def Topic_init_def Subscriber_init_def add_topics_def Scheduler_init_def
      time_time_def pop_time_def root_first_run_def advance_command_def root_periodic_def
      publish_phase_def get_message_at_time_def publish_step_def Message_def time_payload_def
      publish_periodic_from_log_def update_topic_def update_sub_def notify_subscribers_def
      write_log_def periodic_Subscriber_def subscriber_periodic_def subscriber_periodic_sim_def
      log_event_def Let_def)

theorem replay_tick_keeps_timer_reading_witness:
  "\<exists>s' w'. periodic_Scheduler 1 (replay_timer_scheduler, timer_world) = Some (Inr (s', w'))
     \<and> timer_reading w' 5 = Inr 5000
     \<and> is_complete 1 w' 0 = Some (Inr (False, w'))"
proof -
  from replay_tick_evaluated obtain s' w' where
    t: "periodic_Scheduler 1 (replay_timer_scheduler, timer_world) = Some (Inr (s', w'))"
    and c: "cmds w' = cmds timer_world"
    by blast
  have s: "is_sim_Scheduler replay_timer_scheduler"
    by (simp add: replay_timer_scheduler_def add_topics_def Scheduler_init_def)
  have k: "kind (cmds w' 0) = DelayCommand (Some 5000) 2 5"
    using c timer_world_facts(2) by simp
  from replay_tick_keeps_timer_reading [OF s timer_world_facts(1) t, of 0 5000 2 0] k
  have "timer_reading w' 5 = Inr 5000 \<and> is_complete 1 w' 0 = Some (Inr (False, w'))"
    by simp
  with t show ?thesis by blast
qed

text \<open>The same objects in live mode: the tick moves the reading to the clock's \<open>5012\<close>, and
  the delay of two seconds started at \<open>5000\<close> is complete.\<close>

lemma live_tick_advances_timer_reading:
  "\<exists>s' w'. periodic_Scheduler 1 (live_timer_scheduler, timer_world) = Some (Inr (s', w'))
     \<and> timer_reading w' 5 = Inr 5012
     \<and> is_complete 1 w' 0 = Some (Inr (True, w'))"
  by (simp add: periodic_Scheduler_def live_timer_scheduler_def timer_world_def empty_world_def
      SystemTimeTopic_init_def Topic_init_def Subscriber_init_def add_topics_def Scheduler_init_def
      time_time_def pop_time_def root_first_run_def advance_command_def root_periodic_def
      publish_phase_def get_message_at_time_def publish_step_def Message_def time_payload_def
      publish_periodic_def generate_messages_periodic_def
      update_topic_def update_sub_def notify_subscribers_def
      write_log_def periodic_Subscriber_def subscriber_periodic_def subscriber_periodic_sim_def
      log_event_def Let_def timer_reading_def DelayCommand_init_def Command_init_def)

subsection \<open>Publishing live and from the log\<close>










subsection \<open>\<^verbatim>\<open>ParallelCommand\<close> on children that carry \<^verbatim>\<open>next_command\<close>\<close>

text \<open>
  For a child that carries the attribute, the body of the loop of \<^verbatim>\<open>periodic\<close> runs the
  child's \<^verbatim>\<open>periodic()\<close> when it does not report complete or has
  no successor, and otherwise replaces it in place and runs the successor's
  \<^verbatim>\<open>first_run()\<close>. And \<^verbatim>\<open>is_complete\<close> of the \<^verbatim>\<open>ParallelCommand\<close> is the conjunction over its
  children, when their \<^verbatim>\<open>is_complete\<close> changes nothing.
\<close>

lemma parallel_periodic_body_cases:
  assumes "ic w c = Some (Inr (finished, w1))"
  shows "\<not> finished \<Longrightarrow> parallel_periodic_body ic fr per w self i c = per w1 c"
    and "finished \<Longrightarrow> next_command (cmds w1 c) = Some PyNone \<Longrightarrow>
           parallel_periodic_body ic fr per w self i c = per w1 c"
    and "finished \<Longrightarrow> next_command (cmds w1 c) = Some (Ref n) \<Longrightarrow>
           kind (cmds w1 self) = ParallelCommand cs \<Longrightarrow> i < length cs \<Longrightarrow>
           parallel_periodic_body ic fr per w self i c =
             fr (update_cmd self (set_child i n) w1) n"
  using assms
  by (simp_all add: parallel_periodic_body_def child_at_def update_cmd_def set_child_def)

lemma parallel_all_loop_pure:
  assumes "kind (cmds w self) = ParallelCommand cs"
    and "\<And>c. c \<in> set cs \<Longrightarrow> ic w c = Some (Inr (f c, w))"
    and "\<forall>i\<in>set l. i < length cs"
  shows "parallel_all_loop ic w self l = Some (Inr (\<forall>i\<in>set l. f (cs ! i), w))"
  using assms(3)
proof (induction l)
  case Nil
  then show ?case by simp
next
  case (Cons i l)
  then have i: "i < length cs" and l: "\<forall>j\<in>set l. j < length cs" by simp_all
  from i assms(1) have c: "child_at w self i = Some (cs ! i)"
    by (simp add: child_at_def)
  from i have "ic w (cs ! i) = Some (Inr (f (cs ! i), w))"
    by (intro assms(2)) simp
  with c Cons.IH [OF l] show ?case by simp
qed

lemma ParallelCommand_is_complete_iff_all:
  assumes "kind (cmds w p) = ParallelCommand cs"
    and "\<And>c. c \<in> set cs \<Longrightarrow> is_complete d w c = Some (Inr (f c, w))"
  shows "is_complete (Suc d) w p = Some (Inr (\<forall>c\<in>set cs. f c, w))"
proof -
  have "parallel_all_loop (is_complete d) w p [0..<length cs] =
      Some (Inr (\<forall>i\<in>set [0..<length cs]. f (cs ! i), w))"
    using assms by (intro parallel_all_loop_pure) simp_all
  moreover have "(\<forall>i\<in>set [0..<length cs]. f (cs ! i)) = (\<forall>c\<in>set cs. f c)"
    by (auto simp: all_set_conv_all_nth)
  ultimately show ?thesis using assms(1) by simp
qed

end
